theory Spec2Isabelle
  imports Main
begin

section \<open>Values, frames and errors\<close>

text \<open>
  A cell of a pandas frame as \<^verbatim>\<open>database.py\<close> sees it: \<^verbatim>\<open>None\<close>, the float
  \<^verbatim>\<open>nan\<close>, an integer or a string. Other floats play no part in the control flow of the
  module and are left out. The same type serves for the values bound to a statement and
  held in a table, where \<open>Null\<close> is SQL NULL.
\<close>

datatype val = Null | NaN | IntV int | TextV string

text \<open>\<^verbatim>\<open>pd.isna(x)\<close> and the truth value Python gives to \<^verbatim>\<open>not x\<close>.\<close>

fun isna :: "val \<Rightarrow> bool" where
  "isna Null = True"
| "isna NaN = True"
| "isna (IntV i) = False"
| "isna (TextV s) = False"

fun truthy :: "val \<Rightarrow> bool" where
  "truthy Null = False"
| "truthy NaN = True"
| "truthy (IntV i) = (i \<noteq> 0)"
| "truthy (TextV s) = (s \<noteq> [])"

text \<open>
  A pandas \<^verbatim>\<open>Series\<close> (one row with its labels) and a \<^verbatim>\<open>DataFrame\<close>. Column labels
  are taken to be distinct and every row to have one cell per column.
\<close>

type_synonym Series = "(string \<times> val) list"

record DataFrame =
  df_columns :: "string list"
  df_rows :: "val list list"

datatype error =
    OperationalError string
  | InterfaceError
  | DuplicateDatabase string
  | DuplicateSchema string
  | InvalidSchemaName string
  | DuplicateTable string
  | DuplicateColumn string
  | UndefinedTable string
  | UndefinedColumn string
  | SyntaxError
  | DatatypeMismatch string
  | NotNullViolation string
  | UniqueViolation string
  | ForeignKeyViolation string
  | ActiveSqlTransaction
  | TypeError
  | KeyError string

text \<open>\<^verbatim>\<open>str(error)\<close>: the message of the exception.\<close>

fun str_error :: "error \<Rightarrow> string" where
  "str_error (OperationalError d) = ''database does not exist: '' @ d"
| "str_error InterfaceError = ''connection already closed''"
| "str_error (DuplicateDatabase d) = ''database already exists: '' @ d"
| "str_error (DuplicateSchema s) = ''schema already exists: '' @ s"
| "str_error (InvalidSchemaName s) = ''schema does not exist: '' @ s"
| "str_error (DuplicateTable t) = ''relation already exists: '' @ t"
| "str_error (DuplicateColumn t) = ''column specified more than once, for relation: '' @ t"
| "str_error (UndefinedTable t) = ''relation does not exist: '' @ t"
| "str_error (UndefinedColumn c) = ''column does not exist: '' @ c"
| "str_error SyntaxError = ''INSERT has more expressions than target columns''"
| "str_error (DatatypeMismatch c) = ''invalid input value for column: '' @ c"
| "str_error (NotNullViolation c) = ''null value violates not-null constraint: '' @ c"
| "str_error (UniqueViolation c) = ''duplicate key value violates unique constraint: '' @ c"
| "str_error (ForeignKeyViolation c) = ''violates foreign key constraint: '' @ c"
| "str_error ActiveSqlTransaction = ''CREATE DATABASE cannot run inside a transaction block''"
| "str_error TypeError = ''NoneType object is not subscriptable''"
| "str_error (KeyError k) = k"

text \<open>\<^verbatim>\<open>row[key]\<close> and \<^verbatim>\<open>row[[k1, ..., kn]]\<close>: a missing label raises \<^verbatim>\<open>KeyError\<close>.\<close>

definition getitem :: "Series \<Rightarrow> string \<Rightarrow> error + val" where
  "getitem row k = (case map_of row k of None \<Rightarrow> Inl (KeyError k) | Some v \<Rightarrow> Inr v)"

fun getitems :: "Series \<Rightarrow> string list \<Rightarrow> error + Series" where
  "getitems row [] = Inr []"
| "getitems row (k # ks) =
     (case getitem row k of
        Inl e \<Rightarrow> Inl e
      | Inr v \<Rightarrow> (case getitems row ks of Inl e \<Rightarrow> Inl e | Inr r \<Rightarrow> Inr ((k, v) # r)))"

text \<open>\<^verbatim>\<open>series[key] = v\<close>: overwrite the label, or append it when it is new.\<close>

fun setitem :: "Series \<Rightarrow> string \<Rightarrow> val \<Rightarrow> Series" where
  "setitem [] k v = [(k, v)]"
| "setitem ((k', v') # r) k v = (if k' = k then (k, v) # r else (k', v') # setitem r k v)"

text \<open>\<^verbatim>\<open>df.iterrows()\<close>: every row as a series labelled by the columns.\<close>

definition iterrows :: "DataFrame \<Rightarrow> Series list" where
  "iterrows df = map (zip (df_columns df)) (df_rows df)"

text \<open>\<^verbatim>\<open>series.to_frame().T\<close>: the frame with this one row.\<close>

definition to_frame_T :: "Series \<Rightarrow> DataFrame" where
  "to_frame_T r = \<lparr>df_columns = map fst r, df_rows = [map snd r]\<rparr>"


section \<open>The PostgreSQL server, as far as the statements of the module use it\<close>

text \<open>
  The server is the environment of the program. It is modelled for the schema that
  \<^verbatim>\<open>create_main_database.py\<close> declares: typed columns, one primary key column, foreign
  keys, and one sequence per table feeding its \<open>SERIAL\<close> column. Which values a column
  type takes is a parameter of the server (\<open>accepts\<close>). A row is kept with its column
  labels, in the column order of the table. Identifiers are unbounded integers: the 32-bit
  range of \<open>INTEGER\<close> columns and of sequences is not modelled.
\<close>

datatype sqltype = INTEGER | SERIAL | BIGINT | FLOAT | NUMERIC | VARCHAR | TEXT | BOOLEAN | DATE | TIMESTAMP

record column_definition =
  d_cols :: "(string \<times> sqltype) list"
  d_pkey :: "string option"
  d_fkeys :: "(string \<times> string \<times> string \<times> string) list"

record table =
  t_cols :: "(string \<times> sqltype) list"
  t_pkey :: "string option"
  t_fkeys :: "(string \<times> string \<times> string \<times> string) list"
  t_rows :: "Series list"
  t_seq :: "int \<times> bool"

record server =
  databases :: "string list"
  schemas :: "(string \<times> string) list"
  tables :: "string \<times> string \<times> string \<Rightarrow> table option"
  accepts :: "sqltype \<Rightarrow> val \<Rightarrow> bool"

text \<open>
  The statements the module sends. Each SQL text of \<^verbatim>\<open>database.py\<close> is one constructor,
  with the interpolated names and the bound parameters as arguments.
\<close>

datatype stmt =
    CREATE_DATABASE string
  | CREATE_SCHEMA string
  | CREATE_TABLE string string column_definition
  | CREATE_TABLE_IF_NOT_EXISTS string string "(string \<times> sqltype) list"
  | INSERT_INTO string string "string list" "val list"
  | SELECT_COLUMNS string string "string list"
  | SELECT_WHERE string string string "(string \<times> val) list"
  | SELECT_MAX string string string
  | SETVAL string string string int bool

definition cell :: "Series \<Rightarrow> string \<Rightarrow> val" where
  "cell r c = (case map_of r c of None \<Rightarrow> Null | Some v \<Rightarrow> v)"

text \<open>A sequence is (last value, is_called), as \<^verbatim>\<open>setval(seq, v, is_called)\<close> sets it.\<close>

definition nextval :: "int \<times> bool \<Rightarrow> int" where
  "nextval sq = (if snd sq then fst sq + 1 else fst sq)"

definition new_table :: "(string \<times> sqltype) list \<Rightarrow> string option \<Rightarrow> (string \<times> string \<times> string \<times> string) list \<Rightarrow> table" where
  "new_table cs pk fks = \<lparr>t_cols = cs, t_pkey = pk, t_fkeys = fks, t_rows = [], t_seq = (1, False)\<rparr>"

definition exec_create_table :: "string \<Rightarrow> string \<Rightarrow> string \<Rightarrow> column_definition \<Rightarrow> server \<Rightarrow> (error + val list list) \<times> server" where
  "exec_create_table db sch t d s =
     (if (db, sch) \<notin> set (schemas s) then (Inl (InvalidSchemaName sch), s)
      else if tables s (db, sch, t) \<noteq> None then (Inl (DuplicateTable t), s)
      else if \<not> distinct (map fst (d_cols d)) then (Inl (DuplicateColumn t), s)
      else (case find (\<lambda>(c, rs, rt, rc). tables s (db, rs, rt) = None) (d_fkeys d) of
              Some (c, rs, rt, rc) \<Rightarrow> (Inl (UndefinedTable rt), s)
            | None \<Rightarrow>
                (Inr [], s\<lparr>tables := (tables s)((db, sch, t) \<mapsto> new_table (d_cols d) (d_pkey d) (d_fkeys d))\<rparr>)))"

text \<open>The primary key of the new row must be present and new.\<close>

definition pk_violation :: "table \<Rightarrow> Series \<Rightarrow> error option" where
  "pk_violation tb r =
     (case t_pkey tb of
        None \<Rightarrow> None
      | Some k \<Rightarrow>
          if cell r k = Null then Some (NotNullViolation k)
          else if cell r k \<in> set (map (\<lambda>r'. cell r' k) (t_rows tb)) then Some (UniqueViolation k)
          else None)"

text \<open>Every foreign key of the new row is NULL or names a row of the table it refers to.\<close>

definition fk_ok :: "server \<Rightarrow> string \<Rightarrow> Series \<Rightarrow> string \<times> string \<times> string \<times> string \<Rightarrow> bool" where
  "fk_ok s db r fk =
     (case fk of (c, rs, rt, rc) \<Rightarrow>
        cell r c = Null \<or>
        (case tables s (db, rs, rt) of
           None \<Rightarrow> False
         | Some ref \<Rightarrow> cell r c \<in> set (map (\<lambda>r'. cell r' rc) (t_rows ref))))"

definition fk_violation :: "server \<Rightarrow> string \<Rightarrow> table \<Rightarrow> Series \<Rightarrow> error option" where
  "fk_violation s db tb r =
     (case find (\<lambda>fk. \<not> fk_ok s db r fk) (t_fkeys tb) of
        None \<Rightarrow> None
      | Some fk \<Rightarrow> Some (ForeignKeyViolation (fst fk)))"

text \<open>
  The row an INSERT builds: the bound value where the column is named, the next value of
  the sequence for a \<open>SERIAL\<close> column that is not named, NULL otherwise.
\<close>

definition build_row :: "table \<Rightarrow> string list \<Rightarrow> val list \<Rightarrow> int \<Rightarrow> Series" where
  "build_row tb cols vals n =
     map (\<lambda>(c, ty). (c, case map_of (zip cols vals) c of
                           Some v \<Rightarrow> v
                         | None \<Rightarrow> if ty = SERIAL then IntV n else Null)) (t_cols tb)"

definition needs_seq :: "table \<Rightarrow> string list \<Rightarrow> bool" where
  "needs_seq tb cols = list_ex (\<lambda>(c, ty). ty = SERIAL \<and> c \<notin> set cols) (t_cols tb)"

text \<open>
  INSERT. A value of the sequence, once drawn, stays drawn when the row is then refused
  by a key constraint (sequences are not rolled back).
\<close>

definition exec_insert :: "string \<Rightarrow> string \<Rightarrow> string \<Rightarrow> string list \<Rightarrow> val list \<Rightarrow> server \<Rightarrow> (error + val list list) \<times> server" where
  "exec_insert db sch t cols vals s =
     (case tables s (db, sch, t) of
        None \<Rightarrow> (Inl (UndefinedTable t), s)
      | Some tb \<Rightarrow>
          if length cols \<noteq> length vals then (Inl SyntaxError, s)
          else (case find (\<lambda>c. c \<notin> set (map fst (t_cols tb))) cols of
                  Some c \<Rightarrow> (Inl (UndefinedColumn c), s)
                | None \<Rightarrow>
                    if \<not> distinct cols then (Inl (DuplicateColumn t), s)
                    else (case find (\<lambda>(c, v). \<not> accepts s (the (map_of (t_cols tb) c)) v) (zip cols vals) of
                            Some (c, v) \<Rightarrow> (Inl (DatatypeMismatch c), s)
                          | None \<Rightarrow>
                              let n = nextval (t_seq tb);
                                  tb1 = (if needs_seq tb cols then tb\<lparr>t_seq := (n, True)\<rparr> else tb);
                                  r = build_row tb cols vals n
                              in (case pk_violation tb r of
                                    Some e \<Rightarrow> (Inl e, s\<lparr>tables := (tables s)((db, sch, t) \<mapsto> tb1)\<rparr>)
                                  | None \<Rightarrow>
                                      (case fk_violation s db tb r of
                                         Some e \<Rightarrow> (Inl e, s\<lparr>tables := (tables s)((db, sch, t) \<mapsto> tb1)\<rparr>)
                                       | None \<Rightarrow>
                                           (Inr [], s\<lparr>tables := (tables s)((db, sch, t) \<mapsto>
                                                          tb1\<lparr>t_rows := t_rows tb @ [r]\<rparr>)\<rparr>))))))"

text \<open>The integers of a column, for MAX.\<close>

fun int_cells :: "val list \<Rightarrow> int list" where
  "int_cells [] = []"
| "int_cells (IntV i # vs) = i # int_cells vs"
| "int_cells (v # vs) = int_cells vs"

definition column_max :: "table \<Rightarrow> string \<Rightarrow> val" where
  "column_max tb c =
     (let is = int_cells (map (\<lambda>r. cell r c) (t_rows tb))
      in if is = [] then Null else IntV (Max (set is)))"

text \<open>A WHERE clause of equalities; a comparison with NULL never holds.\<close>

definition matches :: "(string \<times> val) list \<Rightarrow> Series \<Rightarrow> bool" where
  "matches conds r = list_all (\<lambda>(c, v). v \<noteq> Null \<and> cell r c = v) conds"

definition exec_stmt :: "string \<Rightarrow> stmt \<Rightarrow> server \<Rightarrow> (error + val list list) \<times> server" where
  "exec_stmt db q s =
     (case q of
        CREATE_DATABASE d \<Rightarrow>
          if d \<in> set (databases s) then (Inl (DuplicateDatabase d), s)
          else (Inr [], s\<lparr>databases := databases s @ [d]\<rparr>)
      | CREATE_SCHEMA sch \<Rightarrow>
          if (db, sch) \<in> set (schemas s) then (Inl (DuplicateSchema sch), s)
          else (Inr [], s\<lparr>schemas := schemas s @ [(db, sch)]\<rparr>)
      | CREATE_TABLE sch t d \<Rightarrow> exec_create_table db sch t d s
      | CREATE_TABLE_IF_NOT_EXISTS sch t cs \<Rightarrow>
          if tables s (db, sch, t) \<noteq> None then (Inr [], s)
          else exec_create_table db sch t \<lparr>d_cols = cs, d_pkey = None, d_fkeys = []\<rparr> s
      | INSERT_INTO sch t cols vals \<Rightarrow> exec_insert db sch t cols vals s
      | SELECT_COLUMNS sch t cols \<Rightarrow>
          (case tables s (db, sch, t) of
             None \<Rightarrow> (Inl (UndefinedTable t), s)
           | Some tb \<Rightarrow>
               (case find (\<lambda>c. c \<notin> set (map fst (t_cols tb))) cols of
                  Some c \<Rightarrow> (Inl (UndefinedColumn c), s)
                | None \<Rightarrow> (Inr (map (\<lambda>r. map (cell r) cols) (t_rows tb)), s)))
      | SELECT_WHERE sch t c conds \<Rightarrow>
          (case tables s (db, sch, t) of
             None \<Rightarrow> (Inl (UndefinedTable t), s)
           | Some tb \<Rightarrow>
               (case find (\<lambda>c. c \<notin> set (map fst (t_cols tb))) (c # map fst conds) of
                  Some c' \<Rightarrow> (Inl (UndefinedColumn c'), s)
                | None \<Rightarrow> (Inr (map (\<lambda>r. [cell r c]) (filter (matches conds) (t_rows tb))), s)))
      | SELECT_MAX sch t c \<Rightarrow>
          (case tables s (db, sch, t) of
             None \<Rightarrow> (Inl (UndefinedTable t), s)
           | Some tb \<Rightarrow>
               if c \<notin> set (map fst (t_cols tb)) then (Inl (UndefinedColumn c), s)
               else (Inr [[column_max tb c]], s))
      | SETVAL sch t c v called \<Rightarrow>
          (case tables s (db, sch, t) of
             None \<Rightarrow> (Inl (UndefinedTable t), s)
           | Some tb \<Rightarrow>
               if c \<notin> set (map fst (t_cols tb)) then (Inl (UndefinedColumn c), s)
               else if map_of (t_cols tb) c \<noteq> Some SERIAL then (Inr [[Null]], s)
               else (Inr [[IntV v]], s\<lparr>tables := (tables s)((db, sch, t) \<mapsto> tb\<lparr>t_seq := (v, called)\<rparr>)\<rparr>)))"


section \<open>The psycopg2 driver\<close>

text \<open>
  The world the program runs in: the committed state of the server, the open connections
  (by handle), and the trace of what the program did (driver calls and printed lines).
  A connection that is not in autocommit mode keeps the server state its open transaction
  has produced (\<open>c_work\<close>) until it commits, rolls back or closes. The program is the
  only writer, and \<open>commit\<close>, \<open>rollback\<close> and \<open>close\<close> are only ever called on
  open connections.
\<close>

record conn =
  c_dbname :: string
  c_autocommit :: bool
  c_work :: "server option"

datatype event =
    Connect nat string
  | Execute nat stmt
  | Commit nat
  | Rollback nat
  | Close nat
  | Print string

record world =
  srv :: server
  conns :: "nat \<Rightarrow> conn option"
  next_conn :: nat
  trace :: "event list"

definition emit :: "event \<Rightarrow> world \<Rightarrow> world" where
  "emit e w = w\<lparr>trace := trace w @ [e]\<rparr>"

definition psycopg2_connect :: "string \<Rightarrow> world \<Rightarrow> (error + nat) \<times> world" where
  "psycopg2_connect d w =
     (if d \<in> set (databases (srv w))
      then (Inr (next_conn w),
            emit (Connect (next_conn w) d)
              (w\<lparr>conns := (conns w)(next_conn w \<mapsto> \<lparr>c_dbname = d, c_autocommit = False, c_work = None\<rparr>),
                 next_conn := Suc (next_conn w)\<rparr>))
      else (Inl (OperationalError d), w))"

definition set_autocommit :: "nat \<Rightarrow> bool \<Rightarrow> world \<Rightarrow> world" where
  "set_autocommit c b w =
     (case conns w c of
        None \<Rightarrow> w
      | Some cn \<Rightarrow> w\<lparr>conns := (conns w)(c \<mapsto> cn\<lparr>c_autocommit := b\<rparr>)\<rparr>)"

text \<open>Sequence functions and queries are not part of the transaction's pending work.\<close>

fun transactional :: "stmt \<Rightarrow> bool" where
  "transactional (CREATE_DATABASE d) = True"
| "transactional (CREATE_SCHEMA sch) = True"
| "transactional (CREATE_TABLE sch t d) = True"
| "transactional (CREATE_TABLE_IF_NOT_EXISTS sch t cs) = True"
| "transactional (INSERT_INTO sch t cols vals) = True"
| "transactional (SELECT_COLUMNS sch t cols) = False"
| "transactional (SELECT_WHERE sch t c conds) = False"
| "transactional (SELECT_MAX sch t c) = False"
| "transactional (SETVAL sch t c v called) = False"

fun is_create_database :: "stmt \<Rightarrow> bool" where
  "is_create_database (CREATE_DATABASE d) = True"
| "is_create_database q = False"

text \<open>Dropping pending work keeps the sequence values it drew.\<close>

definition discard_work :: "server \<Rightarrow> server \<Rightarrow> server" where
  "discard_work v s =
     s\<lparr>tables := (\<lambda>k. case tables s k of
                         None \<Rightarrow> None
                       | Some tb \<Rightarrow> Some (case tables v k of
                                            None \<Rightarrow> tb
                                          | Some tb' \<Rightarrow> tb\<lparr>t_seq := t_seq tb'\<rparr>))\<rparr>"

definition cursor_execute :: "nat \<Rightarrow> stmt \<Rightarrow> world \<Rightarrow> (error + val list list) \<times> world" where
  "cursor_execute c q w =
     (case conns w c of
        None \<Rightarrow> (Inl InterfaceError, w)
      | Some cn \<Rightarrow>
          let w1 = emit (Execute c q) w in
          if c_autocommit cn then
            (case exec_stmt (c_dbname cn) q (srv w) of (r, s') \<Rightarrow> (r, w1\<lparr>srv := s'\<rparr>))
          else if is_create_database q then (Inl ActiveSqlTransaction, w1)
          else
            (case c_work cn of
               None \<Rightarrow>
                 (case exec_stmt (c_dbname cn) q (srv w) of
                    (Inl e, s') \<Rightarrow> (Inl e, w1\<lparr>srv := s'\<rparr>)
                  | (Inr rows, s') \<Rightarrow>
                      if transactional q
                      then (Inr rows, w1\<lparr>conns := (conns w)(c \<mapsto> cn\<lparr>c_work := Some s'\<rparr>)\<rparr>)
                      else (Inr rows, w1\<lparr>srv := s'\<rparr>))
             | Some v \<Rightarrow>
                 (case exec_stmt (c_dbname cn) q v of
                    (r, s') \<Rightarrow> (r, w1\<lparr>conns := (conns w)(c \<mapsto> cn\<lparr>c_work := Some s'\<rparr>)\<rparr>))))"

definition conn_commit :: "nat \<Rightarrow> world \<Rightarrow> world" where
  "conn_commit c w =
     (case conns w c of
        None \<Rightarrow> w
      | Some cn \<Rightarrow>
          emit (Commit c)
            (w\<lparr>srv := (case c_work cn of None \<Rightarrow> srv w | Some v \<Rightarrow> v),
               conns := (conns w)(c \<mapsto> cn\<lparr>c_work := None\<rparr>)\<rparr>))"

definition conn_rollback :: "nat \<Rightarrow> world \<Rightarrow> world" where
  "conn_rollback c w =
     (case conns w c of
        None \<Rightarrow> w
      | Some cn \<Rightarrow>
          emit (Rollback c)
            (w\<lparr>srv := (case c_work cn of None \<Rightarrow> srv w | Some v \<Rightarrow> discard_work v (srv w)),
               conns := (conns w)(c \<mapsto> cn\<lparr>c_work := None\<rparr>)\<rparr>))"

definition conn_close :: "nat \<Rightarrow> world \<Rightarrow> world" where
  "conn_close c w =
     (case conns w c of
        None \<Rightarrow> w
      | Some cn \<Rightarrow>
          emit (Close c)
            (w\<lparr>srv := (case c_work cn of None \<Rightarrow> srv w | Some v \<Rightarrow> discard_work v (srv w)),
               conns := (conns w)(c := None)\<rparr>))"

text \<open>\<^verbatim>\<open>cursor.fetchone()\<close>: the first row of the result, or \<^verbatim>\<open>None\<close>.\<close>

definition fetchone :: "val list list \<Rightarrow> val list option" where
  "fetchone rows = (case rows of [] \<Rightarrow> None | r # rs \<Rightarrow> Some r)"


section \<open>The class \<^verbatim>\<open>ManageDatabase\<close>\<close>

text \<open>
  The object holds the database and schema names and, from \<^verbatim>\<open>config()\<close>, the name of
  the default database. Every method takes the world and returns its result, or the
  exception it raises, with the world it leaves.
\<close>

record ManageDatabase =
  database_name :: string
  schema_name :: string
  params_database :: string

definition connect :: "ManageDatabase \<Rightarrow> string option \<Rightarrow> world \<Rightarrow> (error + nat) \<times> world" where
  "connect self dbname w =
     psycopg2_connect (case dbname of None \<Rightarrow> params_database self | Some d \<Rightarrow> d) w"

definition execute_query :: "ManageDatabase \<Rightarrow> stmt \<Rightarrow> string option \<Rightarrow> bool \<Rightarrow> world \<Rightarrow> (error + unit) \<times> world" where
  "execute_query self query dbname commit w =
     (case connect self dbname w of
        (Inl e, w1) \<Rightarrow> (Inl e, w1)
      | (Inr c, w1) \<Rightarrow>
          (case cursor_execute c query (set_autocommit c commit w1) of
             (Inr rows, w2) \<Rightarrow>
               (Inr (), conn_close c (if commit then conn_commit c w2 else w2))
           | (Inl error, w2) \<Rightarrow>
               let w3 = emit (Print (''Error during query execution: '' @ str_error error)) w2;
                   w4 = (if commit then conn_rollback c w3 else w3)
               in (Inl error, conn_close c w4)))"

definition create_database :: "ManageDatabase \<Rightarrow> world \<Rightarrow> (error + unit) \<times> world" where
  "create_database self w =
     (case execute_query self (CREATE_DATABASE (database_name self)) None True w of
        (Inl error, w1) \<Rightarrow>
          (Inr (), emit (Print (''Error while creating database or schema: '' @ str_error error)) w1)
      | (Inr u, w1) \<Rightarrow>
          (case execute_query self (CREATE_SCHEMA (schema_name self)) (Some (database_name self)) True w1 of
             (Inl error, w2) \<Rightarrow>
               (Inr (), emit (Print (''Error while creating database or schema: '' @ str_error error)) w2)
           | (Inr u', w2) \<Rightarrow> (Inr (), w2)))"

definition create_table :: "ManageDatabase \<Rightarrow> string \<Rightarrow> column_definition \<Rightarrow> world \<Rightarrow> (error + unit) \<times> world" where
  "create_table self table_name column_definition w =
     execute_query self (CREATE_TABLE (schema_name self) table_name column_definition)
       (Some (database_name self)) True w"

definition log_error :: "ManageDatabase \<Rightarrow> string \<Rightarrow> string list \<Rightarrow> error \<Rightarrow> val list \<Rightarrow> world \<Rightarrow> (error + unit) \<times> world" where
  "log_error self table_name columns error_message values w =
     (let error_log_table = table_name @ ''_error_log'';
          error_columns = map (\<lambda>col. (col, TEXT)) columns @ [(''error_message'', TEXT)]
      in case execute_query self
                (CREATE_TABLE_IF_NOT_EXISTS (schema_name self) error_log_table error_columns)
                (Some (database_name self)) True w of
           (Inl e, w1) \<Rightarrow> (Inl e, w1)
         | (Inr u, w1) \<Rightarrow>
             let error_values = values @ [TextV (str_error error_message)]
             in execute_query self
                  (INSERT_INTO (schema_name self) error_log_table (columns @ [''error_message'']) error_values)
                  (Some (database_name self)) True w1)"

text \<open>The loop of \<^verbatim>\<open>populate_table\<close> over the rows that remain.\<close>

fun populate_rows :: "ManageDatabase \<Rightarrow> string \<Rightarrow> string list \<Rightarrow> val list list \<Rightarrow> world \<Rightarrow> (error + unit) \<times> world" where
  "populate_rows self table_name columns [] w = (Inr (), w)"
| "populate_rows self table_name columns (row # rows) w =
     (let values_tuple = map (\<lambda>x. if isna x then Null else x) row
      in case execute_query self
                (INSERT_INTO (schema_name self) table_name columns values_tuple)
                (Some (database_name self)) True w of
           (Inr u, w1) \<Rightarrow> populate_rows self table_name columns rows w1
         | (Inl error, w1) \<Rightarrow>
             (case log_error self table_name columns error values_tuple w1 of
                (Inl e, w2) \<Rightarrow> (Inl e, w2)
              | (Inr u, w2) \<Rightarrow> populate_rows self table_name columns rows w2))"

definition populate_table :: "ManageDatabase \<Rightarrow> string \<Rightarrow> DataFrame \<Rightarrow> world \<Rightarrow> (error + unit) \<times> world" where
  "populate_table self table_name df w =
     populate_rows self table_name (df_columns df) (df_rows df) w"

text \<open>The dictionary comprehension of \<^verbatim>\<open>load_existing_values\<close>: a later row wins.\<close>

fun names_dict :: "val list list \<Rightarrow> (val \<Rightarrow> val option) \<Rightarrow> (val \<Rightarrow> val option)" where
  "names_dict [] d = d"
| "names_dict (r # rs) d = names_dict rs (d(r ! 0 \<mapsto> r ! 1))"

definition load_existing_values :: "ManageDatabase \<Rightarrow> string \<Rightarrow> world \<Rightarrow> (error + (val \<Rightarrow> val option)) \<times> world" where
  "load_existing_values self table_name w =
     (case connect self (Some (database_name self)) w of
        (Inl e, w1) \<Rightarrow> (Inl e, w1)
      | (Inr c, w1) \<Rightarrow>
          (case cursor_execute c (SELECT_COLUMNS (schema_name self) table_name [''name'', ''platform'']) w1 of
             (Inl e, w2) \<Rightarrow> (Inl e, w2)
           | (Inr rows, w2) \<Rightarrow> (Inr (names_dict rows Map.empty), conn_close c w2)))"

definition get_listing_id :: "ManageDatabase \<Rightarrow> val \<Rightarrow> nat \<Rightarrow> world \<Rightarrow> (error + val) \<times> world" where
  "get_listing_id self name c w =
     (case cursor_execute c
             (SELECT_WHERE (schema_name self) ''listings'' ''listing_id''
                [(''name'', name), (''platform'', TextV ''booking'')]) w of
        (Inl e, w1) \<Rightarrow> (Inl e, w1)
      | (Inr rows, w1) \<Rightarrow>
          (case fetchone rows of
             None \<Rightarrow> (Inr Null, w1)
           | Some result \<Rightarrow> (Inr (result ! 0), w1)))"

definition insert_booking_data :: "ManageDatabase \<Rightarrow> Series \<Rightarrow> string list \<Rightarrow> nat \<Rightarrow> world \<Rightarrow> (error + unit) \<times> world" where
  "insert_booking_data self subset_booking booking_columns c w =
     (case (case getitems subset_booking [''room_name'', ''timestamp'', ''price'', ''listing_id''] of
              Inl e \<Rightarrow> (Inl e, w)
            | Inr vs \<Rightarrow>
                (case cursor_execute c
                        (INSERT_INTO (schema_name self) ''booking''
                           [''room_name'', ''timestamp'', ''price'', ''listing_id''] (map snd vs)) w of
                   (Inl e, w1) \<Rightarrow> (Inl e, w1)
                 | (Inr rows, w1) \<Rightarrow> (Inr (), conn_commit c w1))) of
        (Inr u, w2) \<Rightarrow> (Inr (), w2)
      | (Inl error, w2) \<Rightarrow>
          let w3 = conn_rollback c (emit (Print (''Error during booking data insertion: '' @ str_error error)) w2)
          in (case getitems subset_booking [''listing_id'', ''room_name'', ''timestamp'', ''price''] of
                Inl e \<Rightarrow> (Inl e, w3)
              | Inr vs \<Rightarrow> log_error self ''booking'' booking_columns error (map snd vs) w3))"

definition get_max_listing_id :: "ManageDatabase \<Rightarrow> world \<Rightarrow> (error + val) \<times> world" where
  "get_max_listing_id self w =
     (case connect self (Some (database_name self)) w of
        (Inl e, w1) \<Rightarrow> (Inl e, w1)
      | (Inr c, w1) \<Rightarrow>
          (case cursor_execute c (SELECT_MAX (schema_name self) ''listings'' ''listing_id'') w1 of
             (Inl e, w2) \<Rightarrow> (Inl e, w2)
           | (Inr rows, w2) \<Rightarrow>
               (case fetchone rows of
                  None \<Rightarrow> (Inl TypeError, w2)
                | Some r \<Rightarrow>
                    let max_id = r ! 0
                    in (Inr (if max_id \<noteq> Null then max_id else IntV 0), conn_close c w2))))"

text \<open>\<^verbatim>\<open>max_id + 1\<close> is computed for an integer; any other value has no successor to send.\<close>

definition set_listing_id_sequence :: "ManageDatabase \<Rightarrow> val \<Rightarrow> world \<Rightarrow> (error + unit) \<times> world" where
  "set_listing_id_sequence self max_id w =
     (case max_id of
        IntV m \<Rightarrow>
          execute_query self
            (SETVAL (schema_name self) ''listings'' ''listing_id'' (m + 1) False)
            (Some (database_name self)) True w
      | v \<Rightarrow> (Inl TypeError, w))"

definition listings_columns :: "string list" where
  "listings_columns =
     [''neighbourhood_id'', ''room_type_id'', ''name'', ''rating_score'', ''rating_count'', ''kitchen'', ''tv'',
      ''wifi'', ''gym'', ''elevator'', ''fridge'', ''heating'', ''hair_dryer'', ''air_conditioning'',
      ''hot_tub'', ''oven'', ''bbq'', ''coffee'', ''pool'', ''balcony'', ''furniture'', ''microwave'', ''platform'']"

text \<open>
  The tail shared by both branches of the loop body: with the identifier resolved, skip
  the record when it is falsy, else write the booking row.
\<close>

definition append_booking :: "ManageDatabase \<Rightarrow> Series \<Rightarrow> val \<Rightarrow> string list \<Rightarrow> nat \<Rightarrow> world \<Rightarrow> (error + unit) \<times> world" where
  "append_booking self row listing_id booking_columns c w =
     (if \<not> truthy listing_id then (Inr (), w)
      else (case getitems row [''room_name'', ''timestamp'', ''price''] of
              Inl e \<Rightarrow> (Inl e, w)
            | Inr subset_booking \<Rightarrow>
                insert_booking_data self (setitem subset_booking ''listing_id'' listing_id) booking_columns c w))"

text \<open>The body of the loop of \<^verbatim>\<open>add_booking_data\<close>, for one row.\<close>

definition add_booking_row :: "ManageDatabase \<Rightarrow> (val \<Rightarrow> val option) \<Rightarrow> string list \<Rightarrow> nat \<Rightarrow> Series \<Rightarrow> world \<Rightarrow> (error + unit) \<times> world" where
  "add_booking_row self db_names booking_columns c row w =
     (case getitem row ''name'' of
        Inl e \<Rightarrow> (Inl e, w)
      | Inr name \<Rightarrow>
          if db_names name \<noteq> None \<and> db_names name = Some (TextV ''booking'') then
            (case get_listing_id self name c w of
               (Inl e, w1) \<Rightarrow> (Inl e, w1)
             | (Inr listing_id, w1) \<Rightarrow> append_booking self row listing_id booking_columns c w1)
          else
            (case getitems row listings_columns of
               Inl e \<Rightarrow> (Inl e, w)
             | Inr subset_listings \<Rightarrow>
                 (case populate_table self ''listings'' (to_frame_T subset_listings) w of
                    (Inl e, w1) \<Rightarrow> (Inl e, w1)
                  | (Inr u, w1) \<Rightarrow>
                      (case get_listing_id self name c w1 of
                         (Inl e, w2) \<Rightarrow> (Inl e, w2)
                       | (Inr listing_id, w2) \<Rightarrow> append_booking self row listing_id booking_columns c w2))))"

fun add_booking_rows :: "ManageDatabase \<Rightarrow> (val \<Rightarrow> val option) \<Rightarrow> string list \<Rightarrow> nat \<Rightarrow> Series list \<Rightarrow> world \<Rightarrow> (error + unit) \<times> world" where
  "add_booking_rows self db_names booking_columns c [] w = (Inr (), w)"
| "add_booking_rows self db_names booking_columns c (row # rows) w =
     (case add_booking_row self db_names booking_columns c row w of
        (Inl e, w1) \<Rightarrow> (Inl e, w1)
      | (Inr u, w1) \<Rightarrow> add_booking_rows self db_names booking_columns c rows w1)"

definition add_booking_data :: "ManageDatabase \<Rightarrow> DataFrame \<Rightarrow> world \<Rightarrow> (error + unit) \<times> world" where
  "add_booking_data self df w =
     (case load_existing_values self ''listings'' w of
        (Inl e, w1) \<Rightarrow> (Inl e, w1)
      | (Inr db_names, w1) \<Rightarrow>
          (case connect self (Some (database_name self)) w1 of
             (Inl e, w2) \<Rightarrow> (Inl e, w2)
           | (Inr c, w2) \<Rightarrow>
               let booking_columns = [''listing_id'', ''room_name'', ''timestamp'', ''price'']
               in (case get_max_listing_id self w2 of
                     (Inl e, w3) \<Rightarrow> (Inl e, w3)
                   | (Inr max_listing_id, w3) \<Rightarrow>
                       (case set_listing_id_sequence self max_listing_id w3 of
                          (Inl e, w4) \<Rightarrow> (Inl e, w4)
                        | (Inr u, w4) \<Rightarrow>
                            (case add_booking_rows self db_names booking_columns c (iterrows df) w4 of
                               (Inl e, w5) \<Rightarrow> (Inl e, w5)
                             | (Inr u', w5) \<Rightarrow> (Inr (), conn_close c w5))))))"


section \<open>The schema of \<^verbatim>\<open>create_main_database.py\<close> and a small store\<close>

definition accommodation :: ManageDatabase where
  "accommodation = \<lparr>database_name = ''accommodation_db'', schema_name = ''accommodations'',
                      params_database = ''postgres''\<rparr>"

definition neighbourhoods_definition :: column_definition where
  "neighbourhoods_definition =
     \<lparr>d_cols = [(''neighbourhood_id'', INTEGER), (''neighbourhood_name'', VARCHAR)],
      d_pkey = Some ''neighbourhood_id'', d_fkeys = []\<rparr>"

definition room_types_definition :: column_definition where
  "room_types_definition =
     \<lparr>d_cols = [(''room_type_id'', INTEGER), (''room_type_name'', VARCHAR)],
      d_pkey = Some ''room_type_id'', d_fkeys = []\<rparr>"

definition listings_definition :: column_definition where
  "listings_definition =
     \<lparr>d_cols = [(''listing_id'', SERIAL), (''neighbourhood_id'', INTEGER), (''room_type_id'', INTEGER),
                (''platform'', VARCHAR), (''name'', VARCHAR), (''rating_score'', FLOAT),
                (''rating_count'', INTEGER), (''kitchen'', INTEGER), (''tv'', INTEGER), (''wifi'', INTEGER),
                (''gym'', INTEGER), (''elevator'', INTEGER), (''fridge'', INTEGER), (''heating'', INTEGER),
                (''hair_dryer'', INTEGER), (''air_conditioning'', INTEGER), (''hot_tub'', INTEGER),
                (''oven'', INTEGER), (''bbq'', INTEGER), (''coffee'', INTEGER), (''pool'', INTEGER),
                (''balcony'', INTEGER), (''furniture'', INTEGER), (''microwave'', INTEGER)],
      d_pkey = Some ''listing_id'',
      d_fkeys = [(''neighbourhood_id'', ''accommodations'', ''neighbourhoods'', ''neighbourhood_id''),
                 (''room_type_id'', ''accommodations'', ''room_types'', ''room_type_id'')]\<rparr>"

definition booking_definition :: column_definition where
  "booking_definition =
     \<lparr>d_cols = [(''booking_id'', SERIAL), (''listing_id'', INTEGER), (''room_name'', VARCHAR),
                (''timestamp'', TIMESTAMP), (''price'', NUMERIC)],
      d_pkey = Some ''booking_id'',
      d_fkeys = [(''listing_id'', ''accommodations'', ''listings'', ''listing_id'')]\<rparr>"

definition table_of :: "column_definition \<Rightarrow> Series list \<Rightarrow> int \<times> bool \<Rightarrow> table" where
  "table_of d rows sq = \<lparr>t_cols = d_cols d, t_pkey = d_pkey d, t_fkeys = d_fkeys d, t_rows = rows, t_seq = sq\<rparr>"

text \<open>
  A plain acceptance rule for examples: NULL everywhere, integers in numeric and text
  columns, strings in text and time columns.
\<close>

fun accepts_plain :: "sqltype \<Rightarrow> val \<Rightarrow> bool" where
  "accepts_plain ty Null = True"
| "accepts_plain ty NaN = (ty = FLOAT \<or> ty = NUMERIC)"
| "accepts_plain ty (IntV i) =
     (ty = INTEGER \<or> ty = SERIAL \<or> ty = BIGINT \<or> ty = FLOAT \<or> ty = NUMERIC \<or> ty = VARCHAR \<or> ty = TEXT)"
| "accepts_plain ty (TextV s) = (ty = VARCHAR \<or> ty = TEXT \<or> ty = DATE \<or> ty = TIMESTAMP)"

text \<open>
  The store after provisioning: one neighbourhood and one room type (both with
  identifier 1), the given listings with the given state of their sequence, no bookings.
\<close>

definition store_with :: "Series list \<Rightarrow> int \<times> bool \<Rightarrow> world" where
  "store_with ls sq =
     \<lparr>srv = \<lparr>databases = [''postgres'', ''accommodation_db''],
             schemas = [(''accommodation_db'', ''accommodations'')],
             tables = [(''accommodation_db'', ''accommodations'', ''neighbourhoods'') \<mapsto>
                         table_of neighbourhoods_definition
                           [[(''neighbourhood_id'', IntV 1), (''neighbourhood_name'', TextV ''Leopoldstadt'')]] (1, False),
                       (''accommodation_db'', ''accommodations'', ''room_types'') \<mapsto>
                         table_of room_types_definition
                           [[(''room_type_id'', IntV 1), (''room_type_name'', TextV ''Entire home/apt'')]] (1, False),
                       (''accommodation_db'', ''accommodations'', ''listings'') \<mapsto>
                         table_of listings_definition ls sq,
                       (''accommodation_db'', ''accommodations'', ''booking'') \<mapsto>
                         table_of booking_definition [] (1, False)],
             accepts = accepts_plain\<rparr>,
      conns = Map.empty, next_conn = 0, trace = []\<rparr>"

text \<open>A scraped record of the booking flow: name, platform, room, time stamp and price; every amenity 0.\<close>

definition booking_columns_in :: "string list" where
  "booking_columns_in =
     [''neighbourhood_id'', ''room_type_id'', ''name'', ''rating_score'', ''rating_count'', ''kitchen'', ''tv'',
      ''wifi'', ''gym'', ''elevator'', ''fridge'', ''heating'', ''hair_dryer'', ''air_conditioning'',
      ''hot_tub'', ''oven'', ''bbq'', ''coffee'', ''pool'', ''balcony'', ''furniture'', ''microwave'',
      ''room_name'', ''timestamp'', ''price'', ''platform'']"

definition record_of :: "int \<Rightarrow> string \<Rightarrow> string \<Rightarrow> string \<Rightarrow> string \<Rightarrow> val \<Rightarrow> val list" where
  "record_of nb name platform room ts price =
     [IntV nb, IntV 1, TextV name, IntV 9, IntV 120] @ replicate 17 (IntV 0) @
     [TextV room, TextV ts, price, TextV platform]"

text \<open>What is looked at in a store: the listings, the bookings, a quarantine table.\<close>

definition rows_of :: "world \<Rightarrow> string \<Rightarrow> Series list" where
  "rows_of w t =
     (case tables (srv w) (''accommodation_db'', ''accommodations'', t) of
        None \<Rightarrow> []
      | Some tb \<Rightarrow> t_rows tb)"

definition keys_of :: "world \<Rightarrow> (val \<times> val \<times> val) list" where
  "keys_of w = map (\<lambda>r. (cell r ''listing_id'', cell r ''name'', cell r ''platform'')) (rows_of w ''listings'')"


section \<open>Notions used to state the properties\<close>

text \<open>The database a call connects to: the one named, or the default of the configuration.\<close>

definition dbname_of :: "ManageDatabase \<Rightarrow> string option \<Rightarrow> string" where
  "dbname_of self dbname = (case dbname of None \<Rightarrow> params_database self | Some d \<Rightarrow> d)"

text \<open>What the driver answers to the statement of an \<open>execute_query\<close> call.\<close>

definition driver_outcome :: "ManageDatabase \<Rightarrow> stmt \<Rightarrow> string option \<Rightarrow> bool \<Rightarrow> world \<Rightarrow> error + val list list" where
  "driver_outcome self q dbname commit w =
     fst (cursor_execute (next_conn w) q (set_autocommit (next_conn w) commit (snd (connect self dbname w))))"

text \<open>The rows of a table of the server; none when the table does not exist.\<close>

definition table_rows :: "server \<Rightarrow> string \<times> string \<times> string \<Rightarrow> Series list" where
  "table_rows s k = (case tables s k of None \<Rightarrow> [] | Some tb \<Rightarrow> t_rows tb)"

text \<open>The key of a table of the object's schema.\<close>

definition table_key :: "ManageDatabase \<Rightarrow> string \<Rightarrow> string \<times> string \<times> string" where
  "table_key self t = (database_name self, schema_name self, t)"



text \<open>A stored listing with the given identifier, name and platform.\<close>

definition listing_row :: "int \<Rightarrow> string \<Rightarrow> string \<Rightarrow> Series" where
  "listing_row n name platform =
     [(''listing_id'', IntV n), (''neighbourhood_id'', IntV 1), (''room_type_id'', IntV 1),
      (''platform'', TextV platform), (''name'', TextV name), (''rating_score'', IntV 9),
      (''rating_count'', IntV 120)] @
     map (\<lambda>c. (c, IntV 0))
       [''kitchen'', ''tv'', ''wifi'', ''gym'', ''elevator'', ''fridge'', ''heating'', ''hair_dryer'',
        ''air_conditioning'', ''hot_tub'', ''oven'', ''bbq'', ''coffee'', ''pool'', ''balcony'',
        ''furniture'', ''microwave'']"

text \<open>The statements a trace executed, in order.\<close>

fun stmts_of :: "event list \<Rightarrow> stmt list" where
  "stmts_of [] = []"
| "stmts_of (Execute c q # es) = q # stmts_of es"
| "stmts_of (e # es) = stmts_of es"

text \<open>A server before provisioning: only the default database.\<close>

definition bare_server :: world where
  "bare_server = \<lparr>srv = \<lparr>databases = [''postgres''], schemas = [], tables = Map.empty, accepts = accepts_plain\<rparr>,
                   conns = Map.empty, next_conn = 0, trace = []\<rparr>"

text \<open>The tuple \<open>populate_table\<close> binds for a row: \<^verbatim>\<open>None\<close> for every null-like cell.\<close>

definition values_tuple :: "val list \<Rightarrow> val list" where
  "values_tuple row = map (\<lambda>x. if isna x then Null else x) row"

text \<open>
  The scenario of the specification: three scraped records, two of them for the new
  listing ``Seaside Loft'' at different times, one for the new listing ``Downtown Studio''.
\<close>

definition seaside_batch :: DataFrame where
  "seaside_batch =
     \<lparr>df_columns = booking_columns_in,
      df_rows = [record_of 1 ''Seaside Loft'' ''booking'' ''Double room'' ''2024-06-01 10:00:00'' (IntV 100),
                 record_of 1 ''Seaside Loft'' ''booking'' ''Double room'' ''2024-06-02 10:00:00'' (IntV 110),
                 record_of 1 ''Downtown Studio'' ''booking'' ''Studio'' ''2024-06-01 10:00:00'' (IntV 80)]\<rparr>"

text \<open>
  Two frames for the listings table that both start with a row whose neighbourhood does
  not exist; the second frame has one more column, and a good second row. After the
  first frame the quarantine table of the listings exists, with the columns of that frame.
\<close>

definition narrow_frame :: DataFrame where
  "narrow_frame = \<lparr>df_columns = [''neighbourhood_id''], df_rows = [[IntV 99]]\<rparr>"

definition wide_frame :: DataFrame where
  "wide_frame = \<lparr>df_columns = [''neighbourhood_id'', ''name''],
                  df_rows = [[IntV 99, TextV ''Pension Fuchs''], [IntV 1, TextV ''Hotel Post'']]\<rparr>"

definition quarantined_once :: world where
  "quarantined_once = snd (populate_table accommodation ''listings'' narrow_frame (store_with [] (1, False)))"

text \<open>A statement that inserts into the named table, and a row that holds given values in given columns.\<close>

definition targets :: "string \<Rightarrow> stmt \<Rightarrow> bool" where
  "targets t q = (case q of INSERT_INTO sch t' cols vals \<Rightarrow> t' = t | _ \<Rightarrow> False)"

definition holds :: "string list \<Rightarrow> val list \<Rightarrow> Series \<Rightarrow> bool" where
  "holds cols vals r = list_all (\<lambda>(c, v). cell r c = v) (zip cols vals)"

text \<open>
  The connection the orchestrator passes around: open on the object's database, not
  in autocommit mode and with no work pending.
\<close>

definition idle :: "ManageDatabase \<Rightarrow> nat \<Rightarrow> world \<Rightarrow> bool" where
  "idle self c w \<longleftrightarrow>
     c < next_conn w \<and>
     conns w c = Some \<lparr>c_dbname = database_name self, c_autocommit = False, c_work = None\<rparr>"

text \<open>
  The identifier \<open>get_listing_id\<close> finds for a name: that of the first listing of that
  name whose platform is booking; and the statement it sends.
\<close>

definition resolved :: "ManageDatabase \<Rightarrow> val \<Rightarrow> server \<Rightarrow> val" where
  "resolved self name s =
     (case filter (matches [(''name'', name), (''platform'', TextV ''booking'')])
             (table_rows s (table_key self ''listings'')) of
        [] \<Rightarrow> Null
      | r # rs \<Rightarrow> cell r ''listing_id'')"

definition resolve_stmt :: "ManageDatabase \<Rightarrow> val \<Rightarrow> stmt" where
  "resolve_stmt self name =
     SELECT_WHERE (schema_name self) ''listings'' ''listing_id'' [(''name'', name), (''platform'', TextV ''booking'')]"

text \<open>The statement \<open>insert_booking_data\<close> sends.\<close>

definition booking_stmt :: "ManageDatabase \<Rightarrow> val list \<Rightarrow> stmt" where
  "booking_stmt self vals =
     INSERT_INTO (schema_name self) ''booking'' [''room_name'', ''timestamp'', ''price'', ''listing_id''] vals"

text \<open>The two statements of the sequence synchronizer.\<close>

fun is_resync :: "stmt \<Rightarrow> bool" where
  "is_resync (SELECT_MAX sch t c) = True"
| "is_resync (SETVAL sch t c v called) = True"
| "is_resync q = False"

text \<open>
  What the calls inside the loop leave alone: the connection of the orchestrator stays
  idle, the set of databases stays, and no statement of the synchronizer is sent.
\<close>

definition quiet :: "ManageDatabase \<Rightarrow> nat \<Rightarrow> world \<Rightarrow> world \<Rightarrow> bool" where
  "quiet self c w w' \<longleftrightarrow>
     idle self c w' \<and> databases (srv w') = databases (srv w) \<and>
     (\<exists>new. stmts_of (trace w') = stmts_of (trace w) @ new \<and> list_all (\<lambda>q. \<not> is_resync q) new)"

text \<open>
  Worlds and inputs for the examples of the orchestrator: a store with an open
  connection (handle 0) as the loop has it, the column list of the quarantine of
  bookings, a record as the loop sees it, a batch with one record for ``Hotel Post'', the
  same with a price that is no number, a store where ``Hotel Post'' is listed for booking,
  and a store where it is listed for booking and, in a later row, for airbnb.
\<close>

definition connected :: "world \<Rightarrow> world" where
  "connected w = snd (connect accommodation (Some ''accommodation_db'') w)"

definition booking_columns :: "string list" where
  "booking_columns = [''listing_id'', ''room_name'', ''timestamp'', ''price'']"

definition scraped :: "string \<Rightarrow> string \<Rightarrow> string \<Rightarrow> val \<Rightarrow> Series" where
  "scraped name room ts price = zip booking_columns_in (record_of 1 name ''booking'' room ts price)"

definition hotel_post_batch :: DataFrame where
  "hotel_post_batch =
     \<lparr>df_columns = booking_columns_in,
      df_rows = [record_of 1 ''Hotel Post'' ''booking'' ''Double room'' ''2024-06-01 10:00:00'' (IntV 100)]\<rparr>"

definition on_request_batch :: DataFrame where
  "on_request_batch =
     \<lparr>df_columns = booking_columns_in,
      df_rows = [record_of 1 ''Hotel Post'' ''booking'' ''Double room'' ''2024-06-01 10:00:00'' (TextV ''on request'')]\<rparr>"

definition known_store :: world where
  "known_store = store_with [listing_row 1 ''Hotel Post'' ''booking''] (1, True)"

definition shadowed_store :: world where
  "shadowed_store =
     store_with [listing_row 1 ''Hotel Post'' ''booking'', listing_row 2 ''Hotel Post'' ''airbnb''] (2, True)"

text \<open>A frame with the columns of the booking flow and no record.\<close>

definition empty_batch :: DataFrame where
  "empty_batch = \<lparr>df_columns = booking_columns_in, df_rows = []\<rparr>"

section \<open>The query executor\<close>

lemma connect_eq:
  "connect self dbname w =
     (if dbname_of self dbname \<in> set (databases (srv w))
      then (Inr (next_conn w),
            w\<lparr>conns := (conns w)(next_conn w \<mapsto> \<lparr>c_dbname = dbname_of self dbname, c_autocommit = False, c_work = None\<rparr>),
              next_conn := Suc (next_conn w),
              trace := trace w @ [Connect (next_conn w) (dbname_of self dbname)]\<rparr>)
      else (Inl (OperationalError (dbname_of self dbname)), w))"
  by (simp add: connect_def psycopg2_connect_def dbname_of_def emit_def)

lemma driver_outcome_eq:
  "dbname_of self dbname \<in> set (databases (srv w)) \<Longrightarrow>
   driver_outcome self q dbname commit w =
     (if \<not> commit \<and> is_create_database q then Inl ActiveSqlTransaction
      else fst (exec_stmt (dbname_of self dbname) q (srv w)))"
  by (simp add: driver_outcome_def connect_eq set_autocommit_def cursor_execute_def emit_def Let_def
      split: prod.splits sum.splits)

text \<open>
  With \<open>commit\<close> set, a call of \<open>execute_query\<close> is one statement run on the committed
  state through a connection of its own.
\<close>

lemma execute_query_commit:
  "execute_query self q dbname True w =
     (if dbname_of self dbname \<notin> set (databases (srv w)) then (Inl (OperationalError (dbname_of self dbname)), w)
      else (case exec_stmt (dbname_of self dbname) q (srv w) of
              (Inl e, s') \<Rightarrow>
                (Inl e, w\<lparr>srv := s', conns := (conns w)(next_conn w := None), next_conn := Suc (next_conn w),
                          trace := trace w @ [Connect (next_conn w) (dbname_of self dbname), Execute (next_conn w) q,
                                              Print (''Error during query execution: '' @ str_error e),
                                              Rollback (next_conn w), Close (next_conn w)]\<rparr>)
            | (Inr rows, s') \<Rightarrow>
                (Inr (), w\<lparr>srv := s', conns := (conns w)(next_conn w := None), next_conn := Suc (next_conn w),
                           trace := trace w @ [Connect (next_conn w) (dbname_of self dbname), Execute (next_conn w) q,
                                               Commit (next_conn w), Close (next_conn w)]\<rparr>)))"
  by (auto simp: execute_query_def connect_eq set_autocommit_def
        cursor_execute_def conn_commit_def conn_rollback_def conn_close_def emit_def Let_def
      split: prod.splits sum.splits)

lemma execute_query_no_commit:
  "execute_query self q dbname False w =
     (if dbname_of self dbname \<notin> set (databases (srv w)) then (Inl (OperationalError (dbname_of self dbname)), w)
      else (case driver_outcome self q dbname False w of
              Inl e \<Rightarrow>
                (Inl e, w\<lparr>srv := (if is_create_database q then srv w
                                    else snd (exec_stmt (dbname_of self dbname) q (srv w))),
                          conns := (conns w)(next_conn w := None), next_conn := Suc (next_conn w),
                          trace := trace w @ [Connect (next_conn w) (dbname_of self dbname), Execute (next_conn w) q,
                                              Print (''Error during query execution: '' @ str_error e),
                                              Close (next_conn w)]\<rparr>)
            | Inr rows \<Rightarrow>
                (Inr (), w\<lparr>srv := (if transactional q
                                     then discard_work (snd (exec_stmt (dbname_of self dbname) q (srv w))) (srv w)
                                     else snd (exec_stmt (dbname_of self dbname) q (srv w))),
                           conns := (conns w)(next_conn w := None), next_conn := Suc (next_conn w),
                           trace := trace w @ [Connect (next_conn w) (dbname_of self dbname), Execute (next_conn w) q,
                                               Close (next_conn w)]\<rparr>)))"
proof (cases "dbname_of self dbname \<in> set (databases (srv w))")
  case False
  then show ?thesis
    by (simp add: execute_query_def connect_eq)
next
  case db: True
  show ?thesis
  proof (cases "is_create_database q")
    case True
    with db show ?thesis
      by (simp add: driver_outcome_eq execute_query_def connect_eq set_autocommit_def cursor_execute_def
            conn_close_def emit_def Let_def)
  next
    case False
    obtain a b where ab: "exec_stmt (dbname_of self dbname) q (srv w) = (a, b)"
      by (cases "exec_stmt (dbname_of self dbname) q (srv w)")
    with db False show ?thesis
      by (cases a)
         (simp_all add: driver_outcome_eq execute_query_def connect_eq set_autocommit_def cursor_execute_def
            conn_close_def emit_def Let_def)
  qed
qed

text \<open>
  Claim C7. Whatever the statement does, the connection that \<open>execute_query\<close> opened is
  closed when the call ends, and no other connection is touched. When the driver raises,
  the call prints the error, rolls back if \<open>commit\<close> was asked for, closes, and raises the
  same error; when the database of the call cannot be reached, no connection was
  opened and the error of \<open>connect\<close> is raised.
\<close>

theorem execute_query_releases_and_reraises:
  assumes "execute_query self q dbname commit w = (r, w')"
  shows "if dbname_of self dbname \<notin> set (databases (srv w))
         then r = Inl (OperationalError (dbname_of self dbname)) \<and> w' = w
         else conns w' (next_conn w) = None \<and>
              (\<forall>c'. c' \<noteq> next_conn w \<longrightarrow> conns w' c' = conns w c') \<and>
              r = map_sum id (\<lambda>rows. ()) (driver_outcome self q dbname commit w) \<and>
              trace w' = trace w @ [Connect (next_conn w) (dbname_of self dbname), Execute (next_conn w) q] @
                (case r of
                   Inl e \<Rightarrow> [Print (''Error during query execution: '' @ str_error e)] @
                            (if commit then [Rollback (next_conn w)] else [])
                 | Inr u \<Rightarrow> (if commit then [Commit (next_conn w)] else [])) @
                [Close (next_conn w)]"
proof (cases commit)
  case True
  with assms show ?thesis
    by (auto simp: execute_query_commit driver_outcome_eq split: prod.splits sum.splits if_splits)
next
  case False
  with assms show ?thesis
    by (auto simp: execute_query_no_commit split: sum.splits if_splits)
qed

theorem execute_query_releases_and_reraises_witness:
  "fst (execute_query accommodation (CREATE_SCHEMA ''accommodations'') (Some ''accommodation_db'') True
          (store_with [] (1, False))) = Inl (DuplicateSchema ''accommodations'') \<and>
   conns (snd (execute_query accommodation (CREATE_SCHEMA ''accommodations'') (Some ''accommodation_db'') True
          (store_with [] (1, False)))) 0 = None \<and>
   trace (snd (execute_query accommodation (CREATE_SCHEMA ''accommodations'') (Some ''accommodation_db'') True
          (store_with [] (1, False)))) =
     [Connect 0 ''accommodation_db'', Execute 0 (CREATE_SCHEMA ''accommodations''),
      Print (''Error during query execution: '' @ str_error (DuplicateSchema ''accommodations'')),
      Rollback 0, Close 0]"
proof -
  let ?w = "store_with [] (1, False)"
  let ?res = "execute_query accommodation (CREATE_SCHEMA ''accommodations'') (Some ''accommodation_db'') True ?w"
  have r: "fst ?res = Inl (DuplicateSchema ''accommodations'')"
    by code_simp
  have d: "dbname_of accommodation (Some ''accommodation_db'') \<in> set (databases (srv ?w))"
    by code_simp
  have n: "next_conn ?w = 0" "trace ?w = []"
    by (simp_all add: store_with_def)
  have e: "dbname_of accommodation (Some ''accommodation_db'') = ''accommodation_db''"
    by (simp add: dbname_of_def)
  have "?res = (fst ?res, snd ?res)"
    by simp
  from execute_query_releases_and_reraises [OF this]
  show ?thesis
    unfolding r using d by (simp add: n e)
qed

section \<open>Rows and inserts\<close>

lemma map_of_map_labelled:
  "map_of (map (\<lambda>(c, ty). (c, f c ty)) cs) c = map_option (f c) (map_of cs c)"
  by (induction cs) auto


lemma cell_build_row:
  "cell (build_row tb cols vals n) c =
     (case map_of (t_cols tb) c of
        None \<Rightarrow> Null
      | Some ty \<Rightarrow> (case map_of (zip cols vals) c of
                     Some v \<Rightarrow> v
                   | None \<Rightarrow> if ty = SERIAL then IntV n else Null))"
  unfolding build_row_def cell_def
  by (simp add: map_of_map_labelled split: option.splits)

lemma exec_insert_frame:
  assumes "exec_insert db sch t cols vals s = (res, s')"
  shows "databases s' = databases s" and "schemas s' = schemas s" and "accepts s' = accepts s"
    and "k \<noteq> (db, sch, t) \<Longrightarrow> tables s' k = tables s k"
  using assms
  by (auto simp: exec_insert_def Let_def split: option.splits if_splits prod.splits)

lemma exec_insert_Inl:
  assumes "exec_insert db sch t cols vals s = (Inl e, s')"
  shows "table_rows s' k = table_rows s k"
  using assms
  by (auto simp: exec_insert_def Let_def table_rows_def split: option.splits if_splits prod.splits)

lemma exec_insert_Inr:
  assumes "exec_insert db sch t cols vals s = (Inr rs, s')"
  shows "\<exists>tb. tables s (db, sch, t) = Some tb \<and> distinct cols \<and> length cols = length vals \<and>
           set cols \<subseteq> fst ` set (t_cols tb) \<and>
           table_rows s' (db, sch, t) = t_rows tb @ [build_row tb cols vals (nextval (t_seq tb))]"
  using assms
  by (auto simp: exec_insert_def Let_def table_rows_def find_None_iff split: option.splits if_splits prod.splits)


section \<open>The sequence synchronizer\<close>









section \<open>The schema manager\<close>

lemma stmts_of_append: "stmts_of (es @ es') = stmts_of es @ stmts_of es'"
  by (induction es rule: stmts_of.induct) auto

lemma execute_query_commit_stmts:
  "stmts_of (trace (snd (execute_query self q dbname True w))) =
     stmts_of (trace w) @ (if dbname_of self dbname \<in> set (databases (srv w)) then [q] else [])"
  by (simp add: execute_query_commit stmts_of_append split: prod.splits sum.splits)

lemma execute_query_commit_result:
  "fst (execute_query self q dbname True w) =
     (if dbname_of self dbname \<in> set (databases (srv w))
      then map_sum id (\<lambda>rows. ()) (fst (exec_stmt (dbname_of self dbname) q (srv w)))
      else Inl (OperationalError (dbname_of self dbname)))"
  by (simp add: execute_query_commit split: prod.splits sum.splits)

lemma execute_query_commit_srv:
  "srv (snd (execute_query self q dbname True w)) =
     (if dbname_of self dbname \<in> set (databases (srv w))
      then snd (exec_stmt (dbname_of self dbname) q (srv w))
      else srv w)"
  by (simp add: execute_query_commit split: prod.splits sum.splits)

lemma create_database_never_raises: "fst (create_database self w) = Inr ()"
  by (simp add: create_database_def split: prod.splits sum.splits)

lemma create_database_stmts:
  "\<exists>qs. stmts_of (trace (snd (create_database self w))) = stmts_of (trace w) @ qs \<and>
        (qs = [] \<or> qs = [CREATE_DATABASE (database_name self)] \<or>
         qs = [CREATE_DATABASE (database_name self), CREATE_SCHEMA (schema_name self)])"
proof -
  let ?q1 = "execute_query self (CREATE_DATABASE (database_name self)) None True w"
  let ?q2 = "execute_query self (CREATE_SCHEMA (schema_name self)) (Some (database_name self)) True (snd ?q1)"
  have 1: "stmts_of (trace (snd ?q1)) = stmts_of (trace w) @
             (if dbname_of self None \<in> set (databases (srv w)) then [CREATE_DATABASE (database_name self)] else [])"
    by (rule execute_query_commit_stmts)
  have 2: "stmts_of (trace (snd ?q2)) = stmts_of (trace (snd ?q1)) @
             (if dbname_of self (Some (database_name self)) \<in> set (databases (srv (snd ?q1)))
              then [CREATE_SCHEMA (schema_name self)] else [])"
    by (rule execute_query_commit_stmts)
  have "snd (create_database self w) =
          (case fst ?q1 of
             Inl e \<Rightarrow> emit (Print (''Error while creating database or schema: '' @ str_error e)) (snd ?q1)
           | Inr u \<Rightarrow> (case fst ?q2 of
                         Inl e \<Rightarrow> emit (Print (''Error while creating database or schema: '' @ str_error e)) (snd ?q2)
                       | Inr u' \<Rightarrow> snd ?q2))"
    by (simp add: create_database_def split: prod.splits sum.splits)
  then have "stmts_of (trace (snd (create_database self w))) =
               (case fst ?q1 of Inl e \<Rightarrow> stmts_of (trace (snd ?q1)) | Inr u \<Rightarrow> stmts_of (trace (snd ?q2)))"
    by (auto simp: emit_def stmts_of_append split: sum.splits)
  moreover have "dbname_of self None \<notin> set (databases (srv w)) \<Longrightarrow> \<exists>e. fst ?q1 = Inl e"
    by (simp add: execute_query_commit_result)
  ultimately show ?thesis
    using 1 2 by (auto split: if_splits sum.splits)
qed

lemma create_table_again:
  assumes "fst (create_table self t d w) = Inr ()"
  shows "fst (create_table self t d' (snd (create_table self t d w))) = Inl (DuplicateTable t)"
proof -
  let ?db = "database_name self"
  let ?q = "CREATE_TABLE (schema_name self) t d"
  from assms have db: "?db \<in> set (databases (srv w))"
    by (auto simp: create_table_def execute_query_commit_result dbname_of_def split: if_splits)
  with assms obtain rs where ok: "fst (exec_create_table ?db (schema_name self) t d (srv w)) = Inr rs"
    by (cases "fst (exec_create_table ?db (schema_name self) t d (srv w))")
       (auto simp: create_table_def execute_query_commit_result dbname_of_def exec_stmt_def)
  let ?s' = "snd (exec_create_table ?db (schema_name self) t d (srv w))"
  from ok have s': "databases ?s' = databases (srv w)" "(?db, schema_name self) \<in> set (schemas ?s')"
      "tables ?s' (?db, schema_name self, t) \<noteq> None"
    by (auto simp: exec_create_table_def split: if_splits option.splits prod.splits)
  from db have "srv (snd (create_table self t d w)) = ?s'"
    by (simp add: create_table_def execute_query_commit_srv dbname_of_def exec_stmt_def)
  with db s' show ?thesis
    by (simp add: create_table_def execute_query_commit_result dbname_of_def exec_stmt_def
          exec_create_table_def)
qed

text \<open>
  Claim C9, as the code has it. \<open>create_database\<close> never raises: it sends
  \<open>CREATE DATABASE\<close> and then, if that went well, \<open>CREATE SCHEMA\<close>, and a failure of
  either is printed and dropped. \<open>create_table\<close> sends its one statement in autocommit
  mode and raises what the executor raises; called again for the same table, it raises
  \<open>DuplicateTable\<close>.
\<close>

theorem schema_manager_failures:
  "fst (create_database self w) = Inr () \<and>
   (\<exists>qs. stmts_of (trace (snd (create_database self w))) = stmts_of (trace w) @ qs \<and>
         (qs = [] \<or> qs = [CREATE_DATABASE (database_name self)] \<or>
          qs = [CREATE_DATABASE (database_name self), CREATE_SCHEMA (schema_name self)])) \<and>
   fst (create_table self table_name column_definition w) =
     (if database_name self \<in> set (databases (srv w))
      then map_sum id (\<lambda>rows. ())
             (fst (exec_stmt (database_name self)
                     (CREATE_TABLE (schema_name self) table_name column_definition) (srv w)))
      else Inl (OperationalError (database_name self))) \<and>
   trace (snd (create_table self table_name column_definition w)) =
     (if database_name self \<in> set (databases (srv w))
      then trace w @
             [Connect (next_conn w) (database_name self),
              Execute (next_conn w) (CREATE_TABLE (schema_name self) table_name column_definition)] @
             (case fst (create_table self table_name column_definition w) of
                Inl e \<Rightarrow> [Print (''Error during query execution: '' @ str_error e), Rollback (next_conn w)]
              | Inr u \<Rightarrow> [Commit (next_conn w)]) @
             [Close (next_conn w)]
      else trace w) \<and>
   (fst (create_table self table_name column_definition w) = Inr () \<longrightarrow>
    fst (create_table self table_name column_definition
           (snd (create_table self table_name column_definition w))) = Inl (DuplicateTable table_name))"
proof -
  have "fst (create_table self table_name column_definition w) =
     (if database_name self \<in> set (databases (srv w))
      then map_sum id (\<lambda>rows. ())
             (fst (exec_stmt (database_name self)
                     (CREATE_TABLE (schema_name self) table_name column_definition) (srv w)))
      else Inl (OperationalError (database_name self)))"
    by (simp add: create_table_def execute_query_commit_result dbname_of_def)
  moreover have "trace (snd (create_table self table_name column_definition w)) =
     (if database_name self \<in> set (databases (srv w))
      then trace w @
             [Connect (next_conn w) (database_name self),
              Execute (next_conn w) (CREATE_TABLE (schema_name self) table_name column_definition)] @
             (case fst (create_table self table_name column_definition w) of
                Inl e \<Rightarrow> [Print (''Error during query execution: '' @ str_error e), Rollback (next_conn w)]
              | Inr u \<Rightarrow> [Commit (next_conn w)]) @
             [Close (next_conn w)]
      else trace w)"
    by (simp add: create_table_def execute_query_commit dbname_of_def split: prod.splits sum.splits)
  ultimately show ?thesis
    using create_database_never_raises [of self w] create_database_stmts [of self w]
      create_table_again [of self table_name column_definition w column_definition]
    by blast
qed

text \<open>
  On a fresh server, one call of \<open>create_database\<close> sends two statements, and a second
  call returns normally with the failure only printed.
\<close>

theorem create_database_twice_counterexample:
  "stmts_of (trace (snd (create_database accommodation bare_server))) =
     [CREATE_DATABASE ''accommodation_db'', CREATE_SCHEMA ''accommodations''] \<and>
   fst (create_database accommodation (snd (create_database accommodation bare_server))) = Inr () \<and>
   last (trace (snd (create_database accommodation (snd (create_database accommodation bare_server))))) =
     Print (''Error while creating database or schema: '' @ str_error (DuplicateDatabase ''accommodation_db''))"
  by code_simp

theorem schema_manager_failures_witness:
  "fst (create_table accommodation ''neighbourhoods'' neighbourhoods_definition
          (snd (create_database accommodation bare_server))) = Inr () \<and>
   fst (create_table accommodation ''neighbourhoods'' neighbourhoods_definition
          (snd (create_table accommodation ''neighbourhoods'' neighbourhoods_definition
                  (snd (create_database accommodation bare_server))))) = Inl (DuplicateTable ''neighbourhoods'')"
proof -
  let ?w = "snd (create_database accommodation bare_server)"
  have h: "fst (create_table accommodation ''neighbourhoods'' neighbourhoods_definition ?w) = Inr ()"
    by code_simp
  from schema_manager_failures [of accommodation ?w "''neighbourhoods''" neighbourhoods_definition] h
  show ?thesis
    by blast
qed

section \<open>The quarantine logger fails\<close>

lemma execute_query_commit_reported:
  assumes "execute_query self q dbname True w = (Inl e, w')" and "\<forall>d. e \<noteq> OperationalError d"
  shows "Print (''Error during query execution: '' @ str_error e) \<in> set (trace w')"
  using assms
  by (auto simp: execute_query_commit split: if_splits prod.splits sum.splits)

lemma log_error_reported:
  assumes "log_error self table_name columns error vals w = (Inl e, w')" and "\<forall>d. e \<noteq> OperationalError d"
  shows "Print (''Error during query execution: '' @ str_error e) \<in> set (trace w')"
  using assms
  by (auto simp: log_error_def Let_def split: prod.splits sum.splits dest: execute_query_commit_reported)

text \<open>
  Claim C4, as the code has it. When the insert of a row fails and \<open>log_error\<close> then fails
  too, \<open>populate_table\<close> raises the error of \<open>log_error\<close> there and then: the result is the
  same whatever rows follow, so none of them is attempted. Unless the database could
  not be reached, \<open>execute_query\<close> has printed that error.
\<close>

theorem quarantine_failure_stops_batch:
  assumes "execute_query self (INSERT_INTO (schema_name self) table_name columns (values_tuple row))
             (Some (database_name self)) True w = (Inl error, w1)"
    and "log_error self table_name columns error (values_tuple row) w1 = (Inl e, w2)"
  shows "populate_table self table_name \<lparr>df_columns = columns, df_rows = row # rest\<rparr> w = (Inl e, w2) \<and>
         ((\<forall>d. e \<noteq> OperationalError d) \<longrightarrow>
          Print (''Error during query execution: '' @ str_error e) \<in> set (trace w2))"
  using assms log_error_reported [OF assms(2)]
  by (simp add: populate_table_def values_tuple_def Let_def)

theorem quarantine_failure_stops_batch_witness:
  "fst (execute_query accommodation
          (INSERT_INTO (schema_name accommodation) ''listings'' [''neighbourhood_id'', ''name'']
             (values_tuple [IntV 99, TextV ''Pension Fuchs'']))
          (Some (database_name accommodation)) True quarantined_once) = Inl (ForeignKeyViolation ''neighbourhood_id'') \<and>
   fst (log_error accommodation ''listings'' [''neighbourhood_id'', ''name''] (ForeignKeyViolation ''neighbourhood_id'')
          (values_tuple [IntV 99, TextV ''Pension Fuchs''])
          (snd (execute_query accommodation
                  (INSERT_INTO (schema_name accommodation) ''listings'' [''neighbourhood_id'', ''name'']
                     (values_tuple [IntV 99, TextV ''Pension Fuchs'']))
                  (Some (database_name accommodation)) True quarantined_once))) = Inl (UndefinedColumn ''name'') \<and>
   fst (populate_table accommodation ''listings''
          \<lparr>df_columns = [''neighbourhood_id'', ''name''],
           df_rows = [[IntV 99, TextV ''Pension Fuchs''], [IntV 1, TextV ''Hotel Post'']]\<rparr> quarantined_once) =
     Inl (UndefinedColumn ''name'')"
proof -
  let ?ins = "execute_query accommodation
          (INSERT_INTO (schema_name accommodation) ''listings'' [''neighbourhood_id'', ''name'']
             (values_tuple [IntV 99, TextV ''Pension Fuchs'']))
          (Some (database_name accommodation)) True quarantined_once"
  let ?log = "log_error accommodation ''listings'' [''neighbourhood_id'', ''name''] (ForeignKeyViolation ''neighbourhood_id'')
          (values_tuple [IntV 99, TextV ''Pension Fuchs'']) (snd ?ins)"
  have i: "fst ?ins = Inl (ForeignKeyViolation ''neighbourhood_id'')"
    by code_simp
  have l: "fst ?log = Inl (UndefinedColumn ''name'')"
    by code_simp
  from i have i': "?ins = (Inl (ForeignKeyViolation ''neighbourhood_id''), snd ?ins)"
    by (simp add: prod_eq_iff)
  from l have l': "?log = (Inl (UndefinedColumn ''name''), snd ?log)"
    by (simp add: prod_eq_iff)
  from quarantine_failure_stops_batch [OF i' l', of "[[IntV 1, TextV ''Hotel Post'']]"] i l
  show ?thesis
    by simp
qed

text \<open>
  The quarantine table of the listings exists with one column fewer than the frame has.
  The first row is refused for its neighbourhood, its quarantine insert is refused for
  the unknown column, and the batch ends with that error: the second row, which the
  same call on a fresh store does insert, is never sent.
\<close>

theorem quarantine_failure_counterexample:
  "fst (populate_table accommodation ''listings'' wide_frame quarantined_once) = Inl (UndefinedColumn ''name'') \<and>
   stmts_of (trace (snd (populate_table accommodation ''listings'' wide_frame quarantined_once))) =
     stmts_of (trace quarantined_once) @
     [INSERT_INTO ''accommodations'' ''listings'' [''neighbourhood_id'', ''name''] [IntV 99, TextV ''Pension Fuchs''],
      CREATE_TABLE_IF_NOT_EXISTS ''accommodations'' ''listings_error_log''
        [(''neighbourhood_id'', TEXT), (''name'', TEXT), (''error_message'', TEXT)],
      INSERT_INTO ''accommodations'' ''listings_error_log'' [''neighbourhood_id'', ''name'', ''error_message'']
        [IntV 99, TextV ''Pension Fuchs'', TextV (str_error (ForeignKeyViolation ''neighbourhood_id''))]] \<and>
   rows_of (snd (populate_table accommodation ''listings'' wide_frame quarantined_once)) ''listings'' = [] \<and>
   rows_of (snd (populate_table accommodation ''listings'' wide_frame (store_with [] (1, False)))) ''listings'' \<noteq> []"
  by code_simp


section \<open>Two records of one batch for one new listing\<close>

text \<open>
  Claim C1 at the scenario of the specification, on a store without listings. The run
  ends normally and quarantines nothing, and the listings table then holds three rows,
  two of them for (``Seaside Loft'', ``booking''): the index of names is read once before
  the loop and is not updated by the insert of the first record, so the second record
  is inserted again. Both bookings of ``Seaside Loft'' refer to the first of the two rows.
\<close>

theorem seaside_batch_three_listings:
  "fst (add_booking_data accommodation seaside_batch (store_with [] (1, False))) = Inr () \<and>
   keys_of (snd (add_booking_data accommodation seaside_batch (store_with [] (1, False)))) =
     [(IntV 1, TextV ''Seaside Loft'', TextV ''booking''),
      (IntV 2, TextV ''Seaside Loft'', TextV ''booking''),
      (IntV 3, TextV ''Downtown Studio'', TextV ''booking'')] \<and>
   map (\<lambda>r. cell r ''listing_id'')
     (rows_of (snd (add_booking_data accommodation seaside_batch (store_with [] (1, False)))) ''booking'') =
     [IntV 1, IntV 1, IntV 3] \<and>
   rows_of (snd (add_booking_data accommodation seaside_batch (store_with [] (1, False)))) ''listings_error_log'' = [] \<and>
   rows_of (snd (add_booking_data accommodation seaside_batch (store_with [] (1, False)))) ''booking_error_log'' = []"
  by code_simp

section \<open>The bulk loader\<close>

lemma str_error_exec_stmt:
  "fst (exec_stmt db q s) = Inl e \<Longrightarrow> str_error e \<noteq> []"
  by (cases q)
     (auto simp: exec_stmt_def exec_create_table_def exec_insert_def pk_violation_def fk_violation_def Let_def
       split: option.splits if_splits prod.splits)

lemma cell_build_row_zip:
  assumes "distinct cols" and "length cols = length vals" and "set cols \<subseteq> fst ` set (t_cols tb)"
    and "(c, v) \<in> set (zip cols vals)"
  shows "cell (build_row tb cols vals n) c = v"
proof -
  from assms(1,2,4) have "map_of (zip cols vals) c = Some v"
    by (simp add: map_of_zip_is_Some [symmetric] map_of_eq_Some_iff)
  moreover from assms(3,4) obtain ty where "map_of (t_cols tb) c = Some ty"
    by (metis set_zip_leftD subsetD map_of_eq_None_iff not_Some_eq)
  ultimately show ?thesis
    by (simp add: cell_build_row)
qed

lemma insert_committed:
  assumes "execute_query self (INSERT_INTO sch t cols vals) (Some db) True w = (Inr (), w1)"
  shows "\<exists>p. table_rows (srv w1) (db, sch, t) = table_rows (srv w) (db, sch, t) @ [p] \<and>
             (\<forall>(c, v) \<in> set (zip cols vals). cell p c = v)"
    and "k \<noteq> (db, sch, t) \<Longrightarrow> table_rows (srv w1) k = table_rows (srv w) k"
    and "stmts_of (trace w1) = stmts_of (trace w) @ [INSERT_INTO sch t cols vals]"
    and "databases (srv w1) = databases (srv w)"
proof -
  from assms have db: "db \<in> set (databases (srv w))"
    by (auto simp: execute_query_commit dbname_of_def split: if_splits)
  with assms obtain rs where ex: "exec_insert db sch t cols vals (srv w) = (Inr rs, srv w1)"
    by (auto simp: execute_query_commit dbname_of_def exec_stmt_def split: prod.splits sum.splits)
  from exec_insert_Inr [OF ex] obtain tb where tb: "tables (srv w) (db, sch, t) = Some tb"
    and d: "distinct cols" "length cols = length vals" "set cols \<subseteq> fst ` set (t_cols tb)"
    and rows: "table_rows (srv w1) (db, sch, t) = t_rows tb @ [build_row tb cols vals (nextval (t_seq tb))]"
    by blast
  from tb have "table_rows (srv w) (db, sch, t) = t_rows tb"
    by (simp add: table_rows_def)
  with rows d show "\<exists>p. table_rows (srv w1) (db, sch, t) = table_rows (srv w) (db, sch, t) @ [p] \<and>
             (\<forall>(c, v) \<in> set (zip cols vals). cell p c = v)"
    by (auto simp: cell_build_row_zip)
  show "table_rows (srv w1) k = table_rows (srv w) k" if "k \<noteq> (db, sch, t)"
    using exec_insert_frame(4) [OF ex that] by (simp add: table_rows_def)
  from assms db show "stmts_of (trace w1) = stmts_of (trace w) @ [INSERT_INTO sch t cols vals]"
    using execute_query_commit_stmts [of self "INSERT_INTO sch t cols vals" "Some db" w]
    by (simp add: dbname_of_def)
  from exec_insert_frame(1) [OF ex] show "databases (srv w1) = databases (srv w)" .
qed

lemma insert_refused:
  assumes "execute_query self (INSERT_INTO sch t cols vals) (Some db) True w = (Inl e, w1)"
  shows "table_rows (srv w1) k = table_rows (srv w) k"
    and "stmts_of (trace w1) = stmts_of (trace w) @ (if db \<in> set (databases (srv w)) then [INSERT_INTO sch t cols vals] else [])"
    and "databases (srv w1) = databases (srv w)"
    and "str_error e \<noteq> []"
proof -
  show "stmts_of (trace w1) = stmts_of (trace w) @ (if db \<in> set (databases (srv w)) then [INSERT_INTO sch t cols vals] else [])"
    using execute_query_commit_stmts [of self "INSERT_INTO sch t cols vals" "Some db" w] assms
    by (simp add: dbname_of_def)
  show "table_rows (srv w1) k = table_rows (srv w) k"
  proof (cases "db \<in> set (databases (srv w))")
    case True
    with assms have "exec_insert db sch t cols vals (srv w) = (Inl e, srv w1)"
      by (auto simp: execute_query_commit dbname_of_def exec_stmt_def split: prod.splits sum.splits)
    then show ?thesis by (rule exec_insert_Inl)
  next
    case False
    with assms show ?thesis
      by (simp add: execute_query_commit dbname_of_def)
  qed
  show "databases (srv w1) = databases (srv w)"
  proof (cases "db \<in> set (databases (srv w))")
    case True
    with assms have "exec_insert db sch t cols vals (srv w) = (Inl e, srv w1)"
      by (auto simp: execute_query_commit dbname_of_def exec_stmt_def split: prod.splits sum.splits)
    then show ?thesis by (rule exec_insert_frame(1))
  next
    case False
    with assms show ?thesis
      by (simp add: execute_query_commit dbname_of_def)
  qed
  show "str_error e \<noteq> []"
  proof (cases "db \<in> set (databases (srv w))")
    case True
    with assms have "fst (exec_stmt db (INSERT_INTO sch t cols vals) (srv w)) = Inl e"
      by (auto simp: execute_query_commit dbname_of_def split: prod.splits sum.splits)
    then show ?thesis by (rule str_error_exec_stmt)
  next
    case False
    with assms show ?thesis
      by (auto simp: execute_query_commit dbname_of_def)
  qed
qed

lemma ensure_table_rows:
  assumes "execute_query self (CREATE_TABLE_IF_NOT_EXISTS sch t cs) (Some db) True w = (r, w1)"
  shows "table_rows (srv w1) k = table_rows (srv w) k"
    and "databases (srv w1) = databases (srv w)"
    and "stmts_of (trace w1) = stmts_of (trace w) @ (if db \<in> set (databases (srv w)) then [CREATE_TABLE_IF_NOT_EXISTS sch t cs] else [])"
    and "r = Inr () \<Longrightarrow> db \<in> set (databases (srv w))"
  using assms execute_query_commit_stmts [of self "CREATE_TABLE_IF_NOT_EXISTS sch t cs" "Some db" w]
  by (auto simp: execute_query_commit dbname_of_def exec_stmt_def exec_create_table_def table_rows_def new_table_def
      split: prod.splits sum.splits if_splits option.splits)

lemma zip_snoc:
  "length xs = length ys \<Longrightarrow> zip (xs @ [x]) (ys @ [y]) = zip xs ys @ [(x, y)]"
  by simp

lemma quarantined:
  assumes "log_error self t cols e vals w = (Inr (), w')"
  shows "\<exists>q. table_rows (srv w') (database_name self, schema_name self, t @ ''_error_log'') =
               table_rows (srv w) (database_name self, schema_name self, t @ ''_error_log'') @ [q] \<and>
             (\<forall>(c, v) \<in> set (zip cols vals). cell q c = v) \<and>
             cell q ''error_message'' = TextV (str_error e)"
    and "k \<noteq> (database_name self, schema_name self, t @ ''_error_log'') \<Longrightarrow>
         table_rows (srv w') k = table_rows (srv w) k"
    and "stmts_of (trace w') = stmts_of (trace w) @
           [CREATE_TABLE_IF_NOT_EXISTS (schema_name self) (t @ ''_error_log'')
              (map (\<lambda>col. (col, TEXT)) cols @ [(''error_message'', TEXT)]),
            INSERT_INTO (schema_name self) (t @ ''_error_log'') (cols @ [''error_message''])
              (vals @ [TextV (str_error e)])]"
    and "database_name self \<in> set (databases (srv w))"
    and "databases (srv w') = databases (srv w)"
proof -
  let ?db = "database_name self" and ?sch = "schema_name self" and ?t = "t @ ''_error_log''"
  let ?cs = "map (\<lambda>col. (col, TEXT)) cols @ [(''error_message'', TEXT)]"
  let ?cols = "cols @ [''error_message'']" and ?vals = "vals @ [TextV (str_error e)]"
  from assms obtain w1 where
    c: "execute_query self (CREATE_TABLE_IF_NOT_EXISTS ?sch ?t ?cs) (Some ?db) True w = (Inr (), w1)"
    and i: "execute_query self (INSERT_INTO ?sch ?t ?cols ?vals) (Some ?db) True w1 = (Inr (), w')"
    by (auto simp: log_error_def Let_def split: prod.splits sum.splits)
  note c' = ensure_table_rows [OF c]
  note i' = insert_committed [OF i]
  from i'(1) obtain q where q: "table_rows (srv w') (?db, ?sch, ?t) = table_rows (srv w1) (?db, ?sch, ?t) @ [q]"
    and cells: "\<forall>(c, v) \<in> set (zip ?cols ?vals). cell q c = v"
    by blast
  from i have "\<exists>rs. exec_insert ?db ?sch ?t ?cols ?vals (srv w1) = (Inr rs, srv w')"
    by (auto simp: execute_query_commit dbname_of_def exec_stmt_def split: prod.splits sum.splits if_splits)
  then have len: "length cols = length vals"
    by (auto dest!: exec_insert_Inr)
  from cells len have "\<forall>(c, v) \<in> set (zip cols vals). cell q c = v" and "cell q ''error_message'' = TextV (str_error e)"
    by (auto simp: zip_snoc)
  with q c'(1) show "\<exists>q. table_rows (srv w') (?db, ?sch, ?t) = table_rows (srv w) (?db, ?sch, ?t) @ [q] \<and>
             (\<forall>(c, v) \<in> set (zip cols vals). cell q c = v) \<and>
             cell q ''error_message'' = TextV (str_error e)"
    by auto
  show "table_rows (srv w') k = table_rows (srv w) k" if "k \<noteq> (?db, ?sch, ?t)"
    using i'(2) [OF that] c'(1) by simp
  from c'(4) show db: "?db \<in> set (databases (srv w))"
    by simp
  with c'(3) i'(3) show "stmts_of (trace w') = stmts_of (trace w) @
           [CREATE_TABLE_IF_NOT_EXISTS ?sch ?t ?cs, INSERT_INTO ?sch ?t ?cols ?vals]"
    by simp
  from c'(2) i'(4) show "databases (srv w') = databases (srv w)"
    by simp
qed

lemma holdsI: "\<forall>(c, v) \<in> set (zip cols vals). cell r c = v \<Longrightarrow> holds cols vals r"
  by (auto simp: holds_def list_all_iff)

lemma populate_rows_effect:
  assumes "populate_rows self t cols rows w = (Inr (), w')"
  shows "\<exists>P Q new.
           table_rows (srv w') (table_key self t) = table_rows (srv w) (table_key self t) @ P \<and>
           table_rows (srv w') (table_key self (t @ ''_error_log'')) =
             table_rows (srv w) (table_key self (t @ ''_error_log'')) @ Q \<and>
           length P + length Q = length rows \<and>
           (\<forall>p \<in> set P. \<exists>row \<in> set rows. holds cols (values_tuple row) p) \<and>
           (\<forall>q \<in> set Q. \<exists>row \<in> set rows. holds cols (values_tuple row) q \<and>
                             (\<exists>msg. cell q ''error_message'' = TextV msg \<and> msg \<noteq> [])) \<and>
           stmts_of (trace w') = stmts_of (trace w) @ new \<and>
           filter (targets t) new = map (\<lambda>row. INSERT_INTO (schema_name self) t cols (values_tuple row)) rows"
  using assms
proof (induction rows arbitrary: w)
  case Nil
  then show ?case by simp
next
  case (Cons row rest)
  let ?key = "table_key self t" and ?ekey = "table_key self (t @ ''_error_log'')"
  let ?ins = "INSERT_INTO (schema_name self) t cols (values_tuple row)"
  have ne: "?key \<noteq> ?ekey"
    by (simp add: table_key_def)
  from Cons.prems consider
    (ok) w1 where "execute_query self ?ins (Some (database_name self)) True w = (Inr (), w1)"
      and "populate_rows self t cols rest w1 = (Inr (), w')"
  | (refused) e w1 w2 where "execute_query self ?ins (Some (database_name self)) True w = (Inl e, w1)"
      and "log_error self t cols e (values_tuple row) w1 = (Inr (), w2)"
      and "populate_rows self t cols rest w2 = (Inr (), w')"
    by (auto simp: Let_def values_tuple_def split: prod.splits sum.splits)
  then show ?case
  proof cases
    case ok
    note step = insert_committed [OF ok(1)]
    from step(1) obtain p where p: "table_rows (srv w1) ?key = table_rows (srv w) ?key @ [p]"
      and hp: "holds cols (values_tuple row) p"
      by (auto simp: table_key_def intro: holdsI)
    from step(2) [of ?ekey] ne have e1: "table_rows (srv w1) ?ekey = table_rows (srv w) ?ekey"
      by (simp add: table_key_def)
    from Cons.IH [OF ok(2)] obtain P Q new where
      P: "table_rows (srv w') ?key = table_rows (srv w1) ?key @ P"
      and Q: "table_rows (srv w') ?ekey = table_rows (srv w1) ?ekey @ Q"
      and len: "length P + length Q = length rest"
      and hP: "\<forall>p \<in> set P. \<exists>row \<in> set rest. holds cols (values_tuple row) p"
      and hQ: "\<forall>q \<in> set Q. \<exists>row \<in> set rest. holds cols (values_tuple row) q \<and>
                             (\<exists>msg. cell q ''error_message'' = TextV msg \<and> msg \<noteq> [])"
      and tr: "stmts_of (trace w') = stmts_of (trace w1) @ new"
      and fl: "filter (targets t) new = map (\<lambda>row. INSERT_INTO (schema_name self) t cols (values_tuple row)) rest"
      by blast
    show ?thesis
    proof (rule exI [of _ "p # P"], rule exI [of _ Q], rule exI [of _ "?ins # new"], intro conjI)
      show "table_rows (srv w') ?key = table_rows (srv w) ?key @ p # P"
        using P p by simp
      show "table_rows (srv w') ?ekey = table_rows (srv w) ?ekey @ Q"
        using Q e1 by simp
      show "length (p # P) + length Q = length (row # rest)"
        using len by simp
      show "\<forall>p \<in> set (p # P). \<exists>row \<in> set (row # rest). holds cols (values_tuple row) p"
        using hP hp by auto
      show "\<forall>q \<in> set Q. \<exists>row \<in> set (row # rest). holds cols (values_tuple row) q \<and>
                             (\<exists>msg. cell q ''error_message'' = TextV msg \<and> msg \<noteq> [])"
        using hQ by auto
      show "stmts_of (trace w') = stmts_of (trace w) @ ?ins # new"
        using tr step(3) by simp
      show "filter (targets t) (?ins # new) =
              map (\<lambda>row. INSERT_INTO (schema_name self) t cols (values_tuple row)) (row # rest)"
        using fl by (simp add: targets_def)
    qed
  next
    case refused
    note ref = insert_refused [OF refused(1)]
    note log = quarantined [OF refused(2)]
    from log(1) obtain q where q: "table_rows (srv w2) ?ekey = table_rows (srv w1) ?ekey @ [q]"
      and hq: "holds cols (values_tuple row) q"
      and msg: "cell q ''error_message'' = TextV (str_error e)"
      by (auto simp: table_key_def intro: holdsI)
    from log(2) [of ?key] ne have k2: "table_rows (srv w2) ?key = table_rows (srv w1) ?key"
      by (simp add: table_key_def)
    from log(4) ref(3) have db: "database_name self \<in> set (databases (srv w))"
      by simp
    from Cons.IH [OF refused(3)] obtain P Q new where
      P: "table_rows (srv w') ?key = table_rows (srv w2) ?key @ P"
      and Q: "table_rows (srv w') ?ekey = table_rows (srv w2) ?ekey @ Q"
      and len: "length P + length Q = length rest"
      and hP: "\<forall>p \<in> set P. \<exists>row \<in> set rest. holds cols (values_tuple row) p"
      and hQ: "\<forall>q \<in> set Q. \<exists>row \<in> set rest. holds cols (values_tuple row) q \<and>
                             (\<exists>msg. cell q ''error_message'' = TextV msg \<and> msg \<noteq> [])"
      and tr: "stmts_of (trace w') = stmts_of (trace w2) @ new"
      and fl: "filter (targets t) new = map (\<lambda>row. INSERT_INTO (schema_name self) t cols (values_tuple row)) rest"
      by blast
    let ?c = "CREATE_TABLE_IF_NOT_EXISTS (schema_name self) (t @ ''_error_log'')
              (map (\<lambda>col. (col, TEXT)) cols @ [(''error_message'', TEXT)])"
    let ?l = "INSERT_INTO (schema_name self) (t @ ''_error_log'') (cols @ [''error_message''])
              (values_tuple row @ [TextV (str_error e)])"
    show ?thesis
    proof (rule exI [of _ P], rule exI [of _ "q # Q"], rule exI [of _ "?ins # ?c # ?l # new"], intro conjI)
      show "table_rows (srv w') ?key = table_rows (srv w) ?key @ P"
        using P k2 ref(1) by simp
      show "table_rows (srv w') ?ekey = table_rows (srv w) ?ekey @ q # Q"
        using Q q ref(1) by simp
      show "length P + length (q # Q) = length (row # rest)"
        using len by simp
      show "\<forall>p \<in> set P. \<exists>row \<in> set (row # rest). holds cols (values_tuple row) p"
        using hP by auto
      show "\<forall>q \<in> set (q # Q). \<exists>row \<in> set (row # rest). holds cols (values_tuple row) q \<and>
                             (\<exists>msg. cell q ''error_message'' = TextV msg \<and> msg \<noteq> [])"
        using hQ hq msg ref(4) by auto
      show "stmts_of (trace w') = stmts_of (trace w) @ ?ins # ?c # ?l # new"
        using tr log(3) ref(2) db by simp
      show "filter (targets t) (?ins # ?c # ?l # new) =
              map (\<lambda>row. INSERT_INTO (schema_name self) t cols (values_tuple row)) (row # rest)"
        using fl by (simp add: targets_def)
    qed
  qed
qed



section \<open>The orchestrator, one record at a time\<close>

lemma get_listing_id_idle:
  assumes "idle self c w"
  shows "get_listing_id self name c w =
           (case tables (srv w) (table_key self ''listings'') of
              None \<Rightarrow> (Inl (UndefinedTable ''listings''), emit (Execute c (resolve_stmt self name)) w)
            | Some tb \<Rightarrow>
                (case find (\<lambda>c. c \<notin> set (map fst (t_cols tb))) [''listing_id'', ''name'', ''platform''] of
                   Some c' \<Rightarrow> (Inl (UndefinedColumn c'), emit (Execute c (resolve_stmt self name)) w)
                 | None \<Rightarrow> (Inr (resolved self name (srv w)), emit (Execute c (resolve_stmt self name)) w)))"
  using assms
  by (auto simp: idle_def get_listing_id_def cursor_execute_def exec_stmt_def table_key_def resolve_stmt_def
        resolved_def table_rows_def fetchone_def emit_def Let_def
      split: option.splits list.splits)

lemma resolved_found:
  assumes "resolved self name s \<noteq> Null"
  shows "\<exists>l \<in> set (table_rows s (table_key self ''listings'')).
           cell l ''name'' = name \<and> cell l ''platform'' = TextV ''booking'' \<and>
           cell l ''listing_id'' = resolved self name s"
proof -
  let ?m = "filter (matches [(''name'', name), (''platform'', TextV ''booking'')])
              (table_rows s (table_key self ''listings''))"
  from assms obtain l ls where m: "?m = l # ls" and id: "resolved self name s = cell l ''listing_id''"
    by (auto simp: resolved_def split: list.splits)
  from m have "l \<in> set ?m"
    by simp
  then have "l \<in> set (table_rows s (table_key self ''listings''))"
    and "matches [(''name'', name), (''platform'', TextV ''booking'')] l"
    by simp_all
  with id show ?thesis
    by (auto simp: matches_def)
qed


lemma getitems_labels: "getitems row ks = Inr r \<Longrightarrow> map fst r = ks"
  by (induction ks arbitrary: r) (auto split: sum.splits)

lemma getitems_three:
  assumes "getitems row [a, b, c] = Inr sb"
  shows "\<exists>x y z. sb = [(a, x), (b, y), (c, z)]"
  using assms by (auto split: sum.splits)

lemma append_booking_idle:
  assumes "idle self c w"
  shows "append_booking self row listing_id bc c w =
     (if \<not> truthy listing_id then (Inr (), w)
      else case getitems row [''room_name'', ''timestamp'', ''price''] of
             Inl e \<Rightarrow> (Inl e, w)
           | Inr sb \<Rightarrow>
               (case exec_insert (database_name self) (schema_name self) ''booking''
                       [''room_name'', ''timestamp'', ''price'', ''listing_id''] (map snd sb @ [listing_id]) (srv w) of
                  (Inr rows, s') \<Rightarrow>
                    (Inr (), w\<lparr>srv := s',
                               trace := trace w @ [Execute c (booking_stmt self (map snd sb @ [listing_id])), Commit c]\<rparr>)
                | (Inl e, s') \<Rightarrow>
                    log_error self ''booking'' bc e (listing_id # map snd sb)
                      (w\<lparr>srv := s',
                         trace := trace w @ [Execute c (booking_stmt self (map snd sb @ [listing_id])),
                                             Print (''Error during booking data insertion: '' @ str_error e),
                                             Rollback c]\<rparr>)))"
proof (cases "truthy listing_id")
  case False
  then show ?thesis by (simp add: append_booking_def)
next
  case t: True
  show ?thesis
  proof (cases "getitems row [''room_name'', ''timestamp'', ''price'']")
    case (Inl e)
    with t show ?thesis by (simp add: append_booking_def)
  next
    case (Inr sb)
    from getitems_three [OF Inr] obtain x y z where
      sb: "sb = [(''room_name'', x), (''timestamp'', y), (''price'', z)]"
      by blast
    from assms have cn: "conns w c = Some \<lparr>c_dbname = database_name self, c_autocommit = False, c_work = None\<rparr>"
      by (simp add: idle_def)
    obtain r s' where ex: "exec_insert (database_name self) (schema_name self) ''booking''
                       [''room_name'', ''timestamp'', ''price'', ''listing_id''] [x, y, z, listing_id] (srv w) = (r, s')"
      by (cases "exec_insert (database_name self) (schema_name self) ''booking''
                       [''room_name'', ''timestamp'', ''price'', ''listing_id''] [x, y, z, listing_id] (srv w)")
    show ?thesis
    proof (cases r)
      case e: (Inl e)
      from t Inr ex cn show ?thesis
        unfolding sb e
        by (simp add: append_booking_def insert_booking_data_def getitem_def cursor_execute_def exec_stmt_def
              conn_rollback_def emit_def Let_def booking_stmt_def fun_upd_idem)
    next
      case rs: (Inr rs)
      from t Inr ex cn show ?thesis
        unfolding sb rs
        by (simp add: append_booking_def insert_booking_data_def getitem_def cursor_execute_def exec_stmt_def
              conn_commit_def emit_def Let_def booking_stmt_def fun_upd_idem)
    qed
  qed
qed

lemma quiet_refl: "idle self c w \<Longrightarrow> quiet self c w w"
  by (simp add: quiet_def)

lemma quiet_trans: "quiet self c w w1 \<Longrightarrow> quiet self c w1 w2 \<Longrightarrow> quiet self c w w2"
  by (auto simp: quiet_def)

lemma exec_stmt_databases:
  "\<not> is_create_database q \<Longrightarrow> databases (snd (exec_stmt db q s)) = databases s"
  by (cases q)
     (auto simp: exec_stmt_def exec_create_table_def exec_insert_def Let_def
       split: option.splits if_splits prod.splits)

lemma execute_query_quiet:
  assumes "idle self c w" and "execute_query self q dbname True w = (res, w')"
    and "\<not> is_resync q" and "\<not> is_create_database q"
  shows "quiet self c w w'"
proof (cases "dbname_of self dbname \<in> set (databases (srv w))")
  case False
  with assms show ?thesis
    by (simp add: execute_query_commit quiet_refl)
next
  case True
  from assms(1) have c: "c \<noteq> next_conn w"
    by (auto simp: idle_def)
  from True assms(2) have w': "srv w' = snd (exec_stmt (dbname_of self dbname) q (srv w))"
    "conns w' = (conns w)(next_conn w := None)" "next_conn w' = Suc (next_conn w)"
    by (auto simp: execute_query_commit split: prod.splits sum.splits)
  from True assms(2) have st: "stmts_of (trace w') = stmts_of (trace w) @ [q]"
    using execute_query_commit_stmts [of self q dbname w] by simp
  from assms(1) c w' have "idle self c w'"
    by (simp add: idle_def)
  moreover from w'(1) assms(4) have "databases (srv w') = databases (srv w)"
    by (simp add: exec_stmt_databases)
  ultimately show ?thesis
    using st assms(3) by (simp add: quiet_def)
qed

lemma log_error_quiet:
  assumes "idle self c w" and "log_error self t cols e vals w = (res, w')"
  shows "quiet self c w w'"
proof -
  let ?c = "CREATE_TABLE_IF_NOT_EXISTS (schema_name self) (t @ ''_error_log'')
              (map (\<lambda>col. (col, TEXT)) cols @ [(''error_message'', TEXT)])"
  obtain r1 w1 where 1: "execute_query self ?c (Some (database_name self)) True w = (r1, w1)"
    by (cases "execute_query self ?c (Some (database_name self)) True w")
  from execute_query_quiet [OF assms(1) 1] have q1: "quiet self c w w1"
    by simp
  show ?thesis
  proof (cases r1)
    case (Inl e1)
    with 1 assms(2) have "w' = w1"
      by (simp add: log_error_def Let_def)
    with q1 show ?thesis by simp
  next
    case (Inr u)
    with 1 assms(2) have 2: "execute_query self
           (INSERT_INTO (schema_name self) (t @ ''_error_log'') (cols @ [''error_message''])
              (vals @ [TextV (str_error e)])) (Some (database_name self)) True w1 = (res, w')"
      by (simp add: log_error_def Let_def)
    from q1 have "idle self c w1"
      by (simp add: quiet_def)
    from execute_query_quiet [OF this 2] have "quiet self c w1 w'"
      by simp
    with q1 show ?thesis by (rule quiet_trans)
  qed
qed

lemma populate_rows_quiet:
  assumes "idle self c w" and "populate_rows self t cols rows w = (res, w')"
  shows "quiet self c w w'"
  using assms
proof (induction rows arbitrary: w)
  case Nil
  then show ?case by (simp add: quiet_refl)
next
  case (Cons row rest)
  let ?ins = "INSERT_INTO (schema_name self) t cols (values_tuple row)"
  obtain r1 w1 where 1: "execute_query self ?ins (Some (database_name self)) True w = (r1, w1)"
    by (cases "execute_query self ?ins (Some (database_name self)) True w")
  from execute_query_quiet [OF Cons.prems(1) 1] have q1: "quiet self c w w1"
    by simp
  then have i1: "idle self c w1"
    by (simp add: quiet_def)
  show ?case
  proof (cases r1)
    case (Inr u)
    with 1 Cons.prems(2) have "populate_rows self t cols rest w1 = (res, w')"
      by (simp add: values_tuple_def Let_def)
    from Cons.IH [OF i1 this] q1 show ?thesis
      by (blast intro: quiet_trans)
  next
    case (Inl e)
    obtain r2 w2 where 2: "log_error self t cols e (values_tuple row) w1 = (r2, w2)"
      by (cases "log_error self t cols e (values_tuple row) w1")
    from log_error_quiet [OF i1 2] have q2: "quiet self c w1 w2" .
    then have i2: "idle self c w2"
      by (simp add: quiet_def)
    show ?thesis
    proof (cases r2)
      case e2: (Inl e2)
      with Inl 1 2 Cons.prems(2) have "w' = w2"
        by (simp add: values_tuple_def Let_def)
      with q1 q2 show ?thesis
        by (blast intro: quiet_trans)
    next
      case (Inr u)
      with Inl 1 2 Cons.prems(2) have "populate_rows self t cols rest w2 = (res, w')"
        by (simp add: values_tuple_def Let_def)
      from Cons.IH [OF i2 this] q1 q2 show ?thesis
        by (blast intro: quiet_trans)
    qed
  qed
qed

lemma execute_query_insert_frame:
  assumes "execute_query self (INSERT_INTO sch t cols vals) (Some db) True w = (res, w')"
    and "k \<noteq> (db, sch, t)"
  shows "table_rows (srv w') k = table_rows (srv w) k"
proof (cases res)
  case (Inl e)
  with assms(1) show ?thesis by (simp add: insert_refused(1))
next
  case (Inr u)
  with assms show ?thesis by (simp add: insert_committed(2))
qed

lemma log_error_frame:
  assumes "log_error self t cols e vals w = (res, w')"
    and "k \<noteq> table_key self (t @ ''_error_log'')"
  shows "table_rows (srv w') k = table_rows (srv w) k"
proof -
  let ?c = "CREATE_TABLE_IF_NOT_EXISTS (schema_name self) (t @ ''_error_log'')
              (map (\<lambda>col. (col, TEXT)) cols @ [(''error_message'', TEXT)])"
  obtain r1 w1 where 1: "execute_query self ?c (Some (database_name self)) True w = (r1, w1)"
    by (cases "execute_query self ?c (Some (database_name self)) True w")
  note k1 = ensure_table_rows(1) [OF 1, of k]
  show ?thesis
  proof (cases r1)
    case (Inl e1)
    with 1 assms(1) k1 show ?thesis
      by (simp add: log_error_def Let_def)
  next
    case (Inr u)
    with 1 assms(1) have "execute_query self
           (INSERT_INTO (schema_name self) (t @ ''_error_log'') (cols @ [''error_message''])
              (vals @ [TextV (str_error e)])) (Some (database_name self)) True w1 = (res, w')"
      by (simp add: log_error_def Let_def)
    from execute_query_insert_frame [OF this, of k] assms(2) k1 show ?thesis
      by (simp add: table_key_def)
  qed
qed

lemma populate_rows_frame:
  assumes "populate_rows self t cols rows w = (res, w')"
    and "k \<noteq> table_key self t" and "k \<noteq> table_key self (t @ ''_error_log'')"
  shows "table_rows (srv w') k = table_rows (srv w) k"
  using assms(1)
proof (induction rows arbitrary: w)
  case Nil
  then show ?case by simp
next
  case (Cons row rest)
  let ?ins = "INSERT_INTO (schema_name self) t cols (values_tuple row)"
  obtain r1 w1 where 1: "execute_query self ?ins (Some (database_name self)) True w = (r1, w1)"
    by (cases "execute_query self ?ins (Some (database_name self)) True w")
  from execute_query_insert_frame [OF 1, of k] assms(2)
  have k1: "table_rows (srv w1) k = table_rows (srv w) k"
    by (simp add: table_key_def)
  show ?case
  proof (cases r1)
    case (Inr u)
    with 1 Cons.prems have "populate_rows self t cols rest w1 = (res, w')"
      by (simp add: values_tuple_def Let_def)
    from Cons.IH [OF this] k1 show ?thesis by simp
  next
    case (Inl e)
    obtain r2 w2 where 2: "log_error self t cols e (values_tuple row) w1 = (r2, w2)"
      by (cases "log_error self t cols e (values_tuple row) w1")
    from log_error_frame [OF 2 assms(3)] k1 have k2: "table_rows (srv w2) k = table_rows (srv w) k"
      by simp
    show ?thesis
    proof (cases r2)
      case e2: (Inl e2)
      with Inl 1 2 Cons.prems have "w' = w2"
        by (simp add: values_tuple_def Let_def)
      with k2 show ?thesis by simp
    next
      case (Inr u)
      with Inl 1 2 Cons.prems have "populate_rows self t cols rest w2 = (res, w')"
        by (simp add: values_tuple_def Let_def)
      from Cons.IH [OF this] k2 show ?thesis by simp
    qed
  qed
qed

lemma append_booking_skip: "\<not> truthy listing_id \<Longrightarrow> append_booking self row listing_id bc c w = (Inr (), w)"
  by (simp add: append_booking_def)

lemma booking_committed:
  assumes ex: "exec_insert (database_name self) (schema_name self) ''booking''
                 [''room_name'', ''timestamp'', ''price'', ''listing_id''] [x, y, z, listing_id] s = (Inr rs, s')"
  shows "\<exists>b. table_rows s' (table_key self ''booking'') = table_rows s (table_key self ''booking'') @ [b] \<and>
             cell b ''listing_id'' = listing_id \<and>
             holds [''room_name'', ''timestamp'', ''price''] [x, y, z] b"
proof -
  let ?cols = "[''room_name'', ''timestamp'', ''price'', ''listing_id'']"
  let ?vals = "[x, y, z, listing_id]"
  from exec_insert_Inr [OF ex] obtain tb where
    tb: "tables s (database_name self, schema_name self, ''booking'') = Some tb"
    and rows: "table_rows s' (database_name self, schema_name self, ''booking'') =
                 t_rows tb @ [build_row tb ?cols ?vals (nextval (t_seq tb))]"
    and sub: "set ?cols \<subseteq> fst ` set (t_cols tb)"
    by blast
  let ?b = "build_row tb ?cols ?vals (nextval (t_seq tb))"
  have d: "distinct ?cols" and len: "length ?cols = length ?vals"
    by simp_all
  have c: "cell ?b k = v" if "(k, v) \<in> set (zip ?cols ?vals)" for k v
    using cell_build_row_zip [OF d len sub that] .
  have "cell ?b ''listing_id'' = listing_id"
    by (rule c) simp
  moreover have "holds [''room_name'', ''timestamp'', ''price''] [x, y, z] ?b"
    unfolding holds_def by (simp add: c)
  moreover from tb rows have "table_rows s' (table_key self ''booking'') = table_rows s (table_key self ''booking'') @ [?b]"
    by (simp add: table_rows_def table_key_def)
  ultimately show ?thesis by blast
qed

lemma append_booking_cases:
  assumes "idle self c w" and "append_booking self row listing_id bc c w = (res, w')"
  obtains
    (skipped) "\<not> truthy listing_id" "res = Inr ()" "w' = w"
  | (no_label) e where "truthy listing_id" "res = Inl e" "w' = w"
  | (committed) x y z rs s' where "truthy listing_id"
      "getitems row [''room_name'', ''timestamp'', ''price''] = Inr [(''room_name'', x), (''timestamp'', y), (''price'', z)]"
      "exec_insert (database_name self) (schema_name self) ''booking''
         [''room_name'', ''timestamp'', ''price'', ''listing_id''] [x, y, z, listing_id] (srv w) = (Inr rs, s')"
      "res = Inr ()"
      "w' = w\<lparr>srv := s', trace := trace w @ [Execute c (booking_stmt self [x, y, z, listing_id]), Commit c]\<rparr>"
  | (refused) x y z e s' where "truthy listing_id"
      "getitems row [''room_name'', ''timestamp'', ''price''] = Inr [(''room_name'', x), (''timestamp'', y), (''price'', z)]"
      "exec_insert (database_name self) (schema_name self) ''booking''
         [''room_name'', ''timestamp'', ''price'', ''listing_id''] [x, y, z, listing_id] (srv w) = (Inl e, s')"
      "log_error self ''booking'' bc e [listing_id, x, y, z]
         (w\<lparr>srv := s', trace := trace w @ [Execute c (booking_stmt self [x, y, z, listing_id]),
                                            Print (''Error during booking data insertion: '' @ str_error e),
                                            Rollback c]\<rparr>) = (res, w')"
proof (cases "truthy listing_id")
  case False
  with assms skipped show ?thesis
    by (simp add: append_booking_skip)
next
  case t: True
  show ?thesis
  proof (cases "getitems row [''room_name'', ''timestamp'', ''price'']")
    case (Inl e)
    with t assms(2) have "res = Inl e" and "w' = w"
      by (simp_all add: append_booking_def del: getitems.simps)
    with t no_label show ?thesis
      by blast
  next
    case (Inr sb)
    from getitems_three [OF Inr] obtain x y z where
      sb: "sb = [(''room_name'', x), (''timestamp'', y), (''price'', z)]"
      by blast
    obtain r s' where ex: "exec_insert (database_name self) (schema_name self) ''booking''
         [''room_name'', ''timestamp'', ''price'', ''listing_id''] [x, y, z, listing_id] (srv w) = (r, s')"
      by (cases "exec_insert (database_name self) (schema_name self) ''booking''
         [''room_name'', ''timestamp'', ''price'', ''listing_id''] [x, y, z, listing_id] (srv w)")
    show ?thesis
    proof (cases r)
      case rs: (Inr rs)
      from assms(2) have "res = Inr ()"
        and "w' = w\<lparr>srv := s', trace := trace w @ [Execute c (booking_stmt self [x, y, z, listing_id]), Commit c]\<rparr>"
        unfolding append_booking_idle [OF assms(1)] using t Inr ex rs by (simp_all add: sb)
      with committed [OF t Inr [unfolded sb] ex [unfolded rs]] show ?thesis
        by blast
    next
      case e: (Inl e)
      from assms(2) have "log_error self ''booking'' bc e [listing_id, x, y, z]
         (w\<lparr>srv := s', trace := trace w @ [Execute c (booking_stmt self [x, y, z, listing_id]),
                                            Print (''Error during booking data insertion: '' @ str_error e),
                                            Rollback c]\<rparr>) = (res, w')"
        unfolding append_booking_idle [OF assms(1)] using t Inr ex e by (simp add: sb)
      with refused [OF t Inr [unfolded sb] ex [unfolded e]] show ?thesis
        by blast
    qed
  qed
qed

lemma append_booking_effect:
  assumes i: "idle self c w" and a: "append_booking self row listing_id bc c w = (res, w')"
  shows "quiet self c w w' \<and>
         (\<forall>k. k \<noteq> table_key self ''booking'' \<longrightarrow> k \<noteq> table_key self ''booking_error_log'' \<longrightarrow>
              table_rows (srv w') k = table_rows (srv w) k) \<and>
         (table_rows (srv w') (table_key self ''booking'') = table_rows (srv w) (table_key self ''booking'') \<or>
          (\<exists>b. res = Inr () \<and> truthy listing_id \<and>
               table_rows (srv w') (table_key self ''booking'') = table_rows (srv w) (table_key self ''booking'') @ [b] \<and>
               cell b ''listing_id'' = listing_id)) \<and>
         (res = Inr () \<longrightarrow>
          (\<exists>B Q. table_rows (srv w') (table_key self ''booking'') = table_rows (srv w) (table_key self ''booking'') @ B \<and>
                 table_rows (srv w') (table_key self ''booking_error_log'') =
                   table_rows (srv w) (table_key self ''booking_error_log'') @ Q \<and>
                 length B + length Q \<le> 1))"
  using i a
proof (cases rule: append_booking_cases)
  case skipped
  with i show ?thesis
    by (simp add: quiet_refl)
next
  case (no_label e)
  with i show ?thesis
    by (simp add: quiet_refl)
next
  case (committed x y z rs s')
  let ?bk = "table_key self ''booking''"
  from booking_committed [OF committed(3)] obtain b where
    b: "table_rows s' ?bk = table_rows (srv w) ?bk @ [b]" "cell b ''listing_id'' = listing_id"
    by blast
  have fr: "table_rows s' k = table_rows (srv w) k" if "k \<noteq> ?bk" for k
    using exec_insert_frame(4) [OF committed(3), of k] that by (simp add: table_rows_def table_key_def)
  have "quiet self c w w'"
    using i exec_insert_frame(1) [OF committed(3)]
    unfolding committed(5) by (simp add: quiet_def idle_def stmts_of_append booking_stmt_def)
  moreover have "srv w' = s'"
    unfolding committed(5) by simp
  moreover have "table_key self ''booking_error_log'' \<noteq> ?bk"
    by (simp add: table_key_def)
  ultimately show ?thesis
    using b fr committed(1,4) by auto
next
  case (refused x y z e s')
  let ?bk = "table_key self ''booking''" and ?bek = "table_key self ''booking_error_log''"
  let ?w1 = "w\<lparr>srv := s', trace := trace w @ [Execute c (booking_stmt self [x, y, z, listing_id]),
                                             Print (''Error during booking data insertion: '' @ str_error e),
                                             Rollback c]\<rparr>"
  have fr: "table_rows (srv ?w1) k = table_rows (srv w) k" for k
    using exec_insert_Inl [OF refused(3), of k] by simp
  have q1: "quiet self c w ?w1"
    using i exec_insert_frame(1) [OF refused(3)]
    by (simp add: quiet_def idle_def stmts_of_append booking_stmt_def)
  then have "idle self c ?w1"
    by (simp add: quiet_def)
  from log_error_quiet [OF this refused(4)] q1 have q: "quiet self c w w'"
    by (blast intro: quiet_trans)
  have ne: "?bk \<noteq> ?bek"
    by (simp add: table_key_def)
  have other: "table_rows (srv w') k = table_rows (srv w) k" if "k \<noteq> ?bek" for k
    using log_error_frame [OF refused(4), of k] that fr [of k] by simp
  have "\<exists>Q. table_rows (srv w') ?bek = table_rows (srv w) ?bek @ Q \<and> length Q \<le> 1" if "res = Inr ()"
    using quarantined(1) [OF refused(4) [unfolded that]] fr [of ?bek]
    by (auto simp: table_key_def)
  with q other ne show ?thesis
    by auto
qed

lemma add_booking_row_resolve:
  assumes "getitem row ''name'' = Inr name" and "db_names name = Some (TextV ''booking'')"
  shows "add_booking_row self db_names bc c row w =
           (case get_listing_id self name c w of
              (Inl e, w1) \<Rightarrow> (Inl e, w1)
            | (Inr listing_id, w1) \<Rightarrow> append_booking self row listing_id bc c w1)"
  using assms by (simp add: add_booking_row_def)

lemma add_booking_row_insert:
  assumes "getitem row ''name'' = Inr name" and "db_names name \<noteq> Some (TextV ''booking'')"
  shows "add_booking_row self db_names bc c row w =
           (case getitems row listings_columns of
              Inl e \<Rightarrow> (Inl e, w)
            | Inr subset_listings \<Rightarrow>
                (case populate_table self ''listings'' (to_frame_T subset_listings) w of
                   (Inl e, w1) \<Rightarrow> (Inl e, w1)
                 | (Inr u, w1) \<Rightarrow>
                     (case get_listing_id self name c w1 of
                        (Inl e, w2) \<Rightarrow> (Inl e, w2)
                      | (Inr listing_id, w2) \<Rightarrow> append_booking self row listing_id bc c w2)))"
  using assms by (auto simp: add_booking_row_def)

lemma get_listing_id_effect:
  assumes "idle self c w" and "get_listing_id self name c w = (res, w')"
  shows "w' = emit (Execute c (resolve_stmt self name)) w"
    and "res = Inr listing_id \<Longrightarrow> listing_id = resolved self name (srv w)"
  using assms
  by (auto simp: get_listing_id_idle split: option.splits)

lemma get_listing_id_ok:
  assumes "idle self c w" and "tables (srv w) (table_key self ''listings'') = Some tb"
    and "{''listing_id'', ''name'', ''platform''} \<subseteq> fst ` set (t_cols tb)"
  shows "get_listing_id self name c w =
           (Inr (resolved self name (srv w)), emit (Execute c (resolve_stmt self name)) w)"
  using assms by (simp add: get_listing_id_idle)

lemma idle_emit: "idle self c (emit e w) = idle self c w"
  by (simp add: idle_def emit_def)

lemma resolve_branch_effect:
  assumes i: "idle self c w"
    and n: "getitem row ''name'' = Inr name"
    and d: "db_names name = Some (TextV ''booking'')"
    and a: "add_booking_row self db_names bc c row w = (res, w')"
  shows "table_rows (srv w') (table_key self ''listings'') = table_rows (srv w) (table_key self ''listings'') \<and>
         (table_rows (srv w') (table_key self ''booking'') = table_rows (srv w) (table_key self ''booking'') \<or>
          (\<exists>b l. res = Inr () \<and>
                 table_rows (srv w') (table_key self ''booking'') = table_rows (srv w) (table_key self ''booking'') @ [b] \<and>
                 l \<in> set (table_rows (srv w) (table_key self ''listings'')) \<and>
                 cell l ''name'' = name \<and> cell l ''platform'' = TextV ''booking'' \<and>
                 cell b ''listing_id'' = cell l ''listing_id'')) \<and>
         (\<forall>tb x y z rs.
            tables (srv w) (table_key self ''listings'') = Some tb \<longrightarrow>
            {''listing_id'', ''name'', ''platform''} \<subseteq> fst ` set (t_cols tb) \<longrightarrow>
            truthy (resolved self name (srv w)) \<longrightarrow>
            getitems row [''room_name'', ''timestamp'', ''price''] =
              Inr [(''room_name'', x), (''timestamp'', y), (''price'', z)] \<longrightarrow>
            fst (exec_insert (database_name self) (schema_name self) ''booking''
                   [''room_name'', ''timestamp'', ''price'', ''listing_id'']
                   [x, y, z, resolved self name (srv w)] (srv w)) = Inr rs \<longrightarrow>
            res = Inr () \<and>
            (\<exists>b. table_rows (srv w') (table_key self ''booking'') =
                   table_rows (srv w) (table_key self ''booking'') @ [b] \<and>
                 cell b ''listing_id'' = resolved self name (srv w) \<and>
                 holds [''room_name'', ''timestamp'', ''price''] [x, y, z] b))"
proof -
  let ?lk = "table_key self ''listings''" and ?bk = "table_key self ''booking''"
  obtain r1 w1 where g: "get_listing_id self name c w = (r1, w1)"
    by (cases "get_listing_id self name c w")
  note g' = get_listing_id_effect [OF i g]
  from g'(1) i have i1: "idle self c w1" and s1: "srv w1 = srv w"
    by (simp_all add: idle_emit) (simp add: emit_def)
  have lk: "?lk \<noteq> ?bk" "?lk \<noteq> table_key self ''booking_error_log''"
    by (simp_all add: table_key_def)
  show ?thesis
  proof (cases r1)
    case (Inl e)
    with a g n d have "w' = w1" "res = Inl e"
      by (simp_all add: add_booking_row_resolve)
    moreover have "r1 \<noteq> Inl e"
      if "tables (srv w) ?lk = Some tb" "{''listing_id'', ''name'', ''platform''} \<subseteq> fst ` set (t_cols tb)" for tb
      using get_listing_id_ok [OF i that, of name] g by auto
    ultimately show ?thesis
      using s1 Inl by auto
  next
    case (Inr listing_id)
    with a g n d have ap: "append_booking self row listing_id bc c w1 = (res, w')"
      by (simp add: add_booking_row_resolve)
    from g'(2) Inr have id: "listing_id = resolved self name (srv w)"
      by simp
    note eff = append_booking_effect [OF i1 ap, unfolded s1]
    from eff lk have 1: "table_rows (srv w') ?lk = table_rows (srv w) ?lk"
      by blast
    have 2: "table_rows (srv w') ?bk = table_rows (srv w) ?bk \<or>
          (\<exists>b l. res = Inr () \<and> table_rows (srv w') ?bk = table_rows (srv w) ?bk @ [b] \<and>
                 l \<in> set (table_rows (srv w) ?lk) \<and> cell l ''name'' = name \<and>
                 cell l ''platform'' = TextV ''booking'' \<and> cell b ''listing_id'' = cell l ''listing_id'')"
    proof (cases "truthy listing_id")
      case False
      with ap s1 show ?thesis
        by (simp add: append_booking_skip)
    next
      case True
      then have "resolved self name (srv w) \<noteq> Null"
        unfolding id by auto
      from resolved_found [OF this] obtain l where
        "l \<in> set (table_rows (srv w) ?lk)" "cell l ''name'' = name" "cell l ''platform'' = TextV ''booking''"
        "cell l ''listing_id'' = listing_id"
        unfolding id by blast
      moreover from eff have "table_rows (srv w') ?bk = table_rows (srv w) ?bk \<or>
          (\<exists>b. res = Inr () \<and> table_rows (srv w') ?bk = table_rows (srv w) ?bk @ [b] \<and>
               cell b ''listing_id'' = listing_id)"
        by blast
      ultimately show ?thesis
        by auto
    qed
    have 3: "res = Inr () \<and>
            (\<exists>b. table_rows (srv w') ?bk = table_rows (srv w) ?bk @ [b] \<and>
                 cell b ''listing_id'' = resolved self name (srv w) \<and>
                 holds [''room_name'', ''timestamp'', ''price''] [x, y, z] b)"
      if t: "truthy (resolved self name (srv w))"
        and gi: "getitems row [''room_name'', ''timestamp'', ''price''] =
              Inr [(''room_name'', x), (''timestamp'', y), (''price'', z)]"
        and ex: "fst (exec_insert (database_name self) (schema_name self) ''booking''
                   [''room_name'', ''timestamp'', ''price'', ''listing_id'']
                   [x, y, z, resolved self name (srv w)] (srv w)) = Inr rs"
      for x y z rs
    proof -
      obtain s' where ex': "exec_insert (database_name self) (schema_name self) ''booking''
                   [''room_name'', ''timestamp'', ''price'', ''listing_id'']
                   [x, y, z, listing_id] (srv w1) = (Inr rs, s')"
        using ex unfolding id s1 by (metis prod.collapse)
      from ap have "res = Inr ()" and "srv w' = s'"
        unfolding append_booking_idle [OF i1] using t gi ex' unfolding id by (auto simp del: getitems.simps)
      with booking_committed [OF ex'] s1 id show ?thesis
        by auto
    qed
    from 1 2 3 show ?thesis
      by blast
  qed
qed

lemma populate_single:
  assumes "populate_rows self t cols [row] w = (Inr (), w1)"
  shows "\<exists>quarantine.
           stmts_of (trace w1) = stmts_of (trace w) @ INSERT_INTO (schema_name self) t cols (values_tuple row) # quarantine \<and>
           list_all (\<lambda>q. \<not> is_resync q \<and> \<not> targets t q) quarantine"
proof -
  let ?ins = "INSERT_INTO (schema_name self) t cols (values_tuple row)"
  from assms consider
    (ok) "execute_query self ?ins (Some (database_name self)) True w = (Inr (), w1)"
  | (refused) e w0 where "execute_query self ?ins (Some (database_name self)) True w = (Inl e, w0)"
      and "log_error self t cols e (values_tuple row) w0 = (Inr (), w1)"
    by (auto simp: Let_def values_tuple_def split: prod.splits sum.splits)
  then show ?thesis
  proof cases
    case ok
    from insert_committed(3) [OF ok] show ?thesis
      by simp
  next
    case refused
    note ref = insert_refused [OF refused(1)]
    note log = quarantined [OF refused(2)]
    from log(4) ref(3) have "database_name self \<in> set (databases (srv w))"
      by simp
    with ref(2) log(3) show ?thesis
      by (simp add: targets_def)
  qed
qed

lemma to_frame_T_getitems:
  assumes "getitems row ks = Inr sl"
  shows "populate_table self t (to_frame_T sl) w = populate_rows self t ks [map snd sl] w"
  using getitems_labels [OF assms] by (simp add: populate_table_def to_frame_T_def)

lemma insert_branch_cases:
  assumes "idle self c w" and "getitem row ''name'' = Inr name" and "db_names name \<noteq> Some (TextV ''booking'')"
    and "add_booking_row self db_names bc c row w = (res, w')"
  obtains
    (no_label) e where "res = Inl e" "w' = w"
  | (load_failed) sl e where "getitems row listings_columns = Inr sl"
      "populate_rows self ''listings'' listings_columns [map snd sl] w = (Inl e, w')" "res = Inl e"
  | (resolve_failed) sl w1 e where "getitems row listings_columns = Inr sl"
      "populate_rows self ''listings'' listings_columns [map snd sl] w = (Inr (), w1)"
      "res = Inl e" "w' = emit (Execute c (resolve_stmt self name)) w1"
  | (resolved) sl w1 where "getitems row listings_columns = Inr sl"
      "populate_rows self ''listings'' listings_columns [map snd sl] w = (Inr (), w1)"
      "idle self c (emit (Execute c (resolve_stmt self name)) w1)"
      "append_booking self row (resolved self name (srv w1)) bc c (emit (Execute c (resolve_stmt self name)) w1) = (res, w')"
proof (cases "getitems row listings_columns")
  case (Inl e)
  with assms have "res = Inl e" "w' = w"
    by (simp_all add: add_booking_row_insert)
  with no_label show ?thesis
    by blast
next
  case (Inr sl)
  note pt = to_frame_T_getitems [OF Inr, of self "''listings''"]
  obtain r1 w1 where p: "populate_rows self ''listings'' listings_columns [map snd sl] w = (r1, w1)"
    by (cases "populate_rows self ''listings'' listings_columns [map snd sl] w")
  show ?thesis
  proof (cases r1)
    case e: (Inl e)
    with assms Inr p pt have "res = Inl e" "w' = w1"
      by (simp_all add: add_booking_row_insert)
    with load_failed [OF Inr] p e show ?thesis
      by blast
  next
    case u: (Inr u)
    from populate_rows_quiet [OF assms(1) p] have i1: "idle self c w1"
      by (simp add: quiet_def)
    obtain r2 w2 where g: "get_listing_id self name c w1 = (r2, w2)"
      by (cases "get_listing_id self name c w1")
    note g' = get_listing_id_effect [OF i1 g]
    show ?thesis
    proof (cases r2)
      case e: (Inl e)
      with assms Inr p pt u g have "res = Inl e" "w' = w2"
        by (simp_all add: add_booking_row_insert)
      with resolve_failed [OF Inr] p u g'(1) show ?thesis
        by simp
    next
      case id: (Inr listing_id)
      with assms Inr p pt u g have "append_booking self row listing_id bc c w2 = (res, w')"
        by (simp add: add_booking_row_insert)
      with resolved [OF Inr] p u g' id i1 show ?thesis
        by (simp add: idle_emit)
    qed
  qed
qed

lemma resolved_cong:
  "table_rows s' (table_key self ''listings'') = table_rows s (table_key self ''listings'') \<Longrightarrow>
   resolved self name s' = resolved self name s"
  by (simp add: resolved_def)

lemma quiet_emit_resolve:
  "idle self c w \<Longrightarrow> quiet self c w (emit (Execute c (resolve_stmt self name)) w)"
  by (simp add: quiet_def idle_emit) (simp add: emit_def stmts_of_append resolve_stmt_def)

lemma distinct_keys:
  "table_key self ''listings'' \<noteq> table_key self ''booking''"
  "table_key self ''listings'' \<noteq> table_key self ''booking_error_log''"
  "table_key self ''listings_error_log'' \<noteq> table_key self ''booking''"
  "table_key self ''listings_error_log'' \<noteq> table_key self ''booking_error_log''"
  "table_key self ''booking'' \<noteq> table_key self ''listings''"
  "table_key self ''booking'' \<noteq> table_key self ''listings_error_log''"
  "table_key self ''booking_error_log'' \<noteq> table_key self ''listings''"
  "table_key self ''booking_error_log'' \<noteq> table_key self ''listings_error_log''"
  by (simp_all add: table_key_def)

lemma insert_branch_booking:
  assumes i: "idle self c w" and n: "getitem row ''name'' = Inr name"
    and d: "db_names name \<noteq> Some (TextV ''booking'')"
    and a: "add_booking_row self db_names bc c row w = (res, w')"
  shows "quiet self c w w' \<and>
         (table_rows (srv w') (table_key self ''booking'') = table_rows (srv w) (table_key self ''booking'') \<or>
          (\<exists>b l. res = Inr () \<and>
                 table_rows (srv w') (table_key self ''booking'') = table_rows (srv w) (table_key self ''booking'') @ [b] \<and>
                 l \<in> set (table_rows (srv w') (table_key self ''listings'')) \<and>
                 cell l ''name'' = name \<and> cell l ''platform'' = TextV ''booking'' \<and>
                 cell b ''listing_id'' = cell l ''listing_id''))"
  using i n d a
proof (cases rule: insert_branch_cases)
  case (no_label e)
  with i show ?thesis
    by (simp add: quiet_refl)
next
  case (load_failed sl e)
  from populate_rows_quiet [OF i load_failed(2)]
    populate_rows_frame [OF load_failed(2), of "table_key self ''booking''"]
  show ?thesis
    by (simp add: distinct_keys)
next
  case (resolve_failed sl w1 e)
  from populate_rows_quiet [OF i resolve_failed(2)] have q1: "quiet self c w w1" .
  then have "idle self c w1"
    by (simp add: quiet_def)
  from quiet_emit_resolve [OF this, of name] q1 have "quiet self c w w'"
    unfolding resolve_failed(4) by (rule quiet_trans [rotated])
  moreover have "srv w' = srv w1"
    unfolding resolve_failed(4) by (simp add: emit_def)
  ultimately show ?thesis
    using populate_rows_frame [OF resolve_failed(2), of "table_key self ''booking''"]
    by (simp add: distinct_keys)
next
  case (resolved sl w1)
  let ?w2 = "emit (Execute c (resolve_stmt self name)) w1"
  let ?id = "resolved self name (srv w1)"
  let ?bk = "table_key self ''booking''" and ?lk = "table_key self ''listings''"
  have s2: "srv ?w2 = srv w1"
    by (simp add: emit_def)
  from populate_rows_quiet [OF i resolved(2)] have q1: "quiet self c w w1" .
  then have i1: "idle self c w1"
    by (simp add: quiet_def)
  note eff = append_booking_effect [OF resolved(3,4), unfolded s2]
  from eff quiet_emit_resolve [OF i1, of name] q1 have q: "quiet self c w w'"
    by (blast intro: quiet_trans)
  have b1: "table_rows (srv w1) ?bk = table_rows (srv w) ?bk"
    using populate_rows_frame [OF resolved(2), of ?bk] by (simp add: distinct_keys)
  from eff have l': "table_rows (srv w') ?lk = table_rows (srv w1) ?lk"
    using distinct_keys(1,2) [of self] by blast
  from eff have "table_rows (srv w') ?bk = table_rows (srv w1) ?bk \<or>
     (\<exists>b. res = Inr () \<and> truthy ?id \<and> table_rows (srv w') ?bk = table_rows (srv w1) ?bk @ [b] \<and>
          cell b ''listing_id'' = ?id)"
    by blast
  then show ?thesis
  proof
    assume "table_rows (srv w') ?bk = table_rows (srv w1) ?bk"
    with q b1 show ?thesis by simp
  next
    assume "\<exists>b. res = Inr () \<and> truthy ?id \<and> table_rows (srv w') ?bk = table_rows (srv w1) ?bk @ [b] \<and>
          cell b ''listing_id'' = ?id"
    then obtain b where b: "res = Inr ()" "truthy ?id" "table_rows (srv w') ?bk = table_rows (srv w1) ?bk @ [b]"
      "cell b ''listing_id'' = ?id"
      by blast
    from b(2) have "?id \<noteq> Null"
      by auto
    from resolved_found [OF this] obtain l where
      "l \<in> set (table_rows (srv w1) ?lk)" "cell l ''name'' = name" "cell l ''platform'' = TextV ''booking''"
      "cell l ''listing_id'' = ?id"
      by blast
    with b b1 l' q show ?thesis
      by auto
  qed
qed

lemma insert_branch_trace:
  assumes i: "idle self c w" and n: "getitem row ''name'' = Inr name"
    and d: "db_names name \<noteq> Some (TextV ''booking'')"
    and a: "add_booking_row self db_names bc c row w = (Inr (), w')"
  shows "\<exists>sl quarantine rest.
           getitems row listings_columns = Inr sl \<and>
           stmts_of (trace w') =
             stmts_of (trace w) @
             [INSERT_INTO (schema_name self) ''listings'' listings_columns (values_tuple (map snd sl))] @
             quarantine @ [resolve_stmt self name] @ rest \<and>
           list_all (\<lambda>q. \<not> is_resync q \<and> \<not> targets ''listings'' q) quarantine \<and>
           list_all (\<lambda>q. \<not> is_resync q) rest \<and>
           (\<not> truthy (resolved self name (srv w')) \<longrightarrow>
              rest = [] \<and>
              table_rows (srv w') (table_key self ''booking'') = table_rows (srv w) (table_key self ''booking''))"
  using i n d a
proof (cases rule: insert_branch_cases)
  case (resolved sl w1)
  let ?w2 = "emit (Execute c (resolve_stmt self name)) w1"
  let ?id = "resolved self name (srv w1)"
  let ?bk = "table_key self ''booking''" and ?lk = "table_key self ''listings''"
  let ?ins = "INSERT_INTO (schema_name self) ''listings'' listings_columns (values_tuple (map snd sl))"
  have s2: "srv ?w2 = srv w1"
    by (simp add: emit_def)
  from populate_single [OF resolved(2)] obtain quarantine where
    t1: "stmts_of (trace w1) = stmts_of (trace w) @ ?ins # quarantine"
    and nq: "list_all (\<lambda>q. \<not> is_resync q \<and> \<not> targets ''listings'' q) quarantine"
    by blast
  have t2: "stmts_of (trace ?w2) = stmts_of (trace w1) @ [resolve_stmt self name]"
    by (simp add: emit_def stmts_of_append)
  have b1: "table_rows (srv w1) ?bk = table_rows (srv w) ?bk"
    using populate_rows_frame [OF resolved(2), of ?bk] by (simp add: distinct_keys)
  note eff = append_booking_effect [OF resolved(3,4), unfolded s2]
  from eff have l': "table_rows (srv w') ?lk = table_rows (srv w1) ?lk"
    using distinct_keys(1,2) [of self] by blast
  then have id: "resolved self name (srv w') = ?id"
    by (rule resolved_cong)
  have fin: ?thesis
    if "stmts_of (trace w') = stmts_of (trace ?w2) @ rest" and "list_all (\<lambda>q. \<not> is_resync q) rest"
      and "\<not> truthy ?id \<longrightarrow> rest = [] \<and> table_rows (srv w') ?bk = table_rows (srv w1) ?bk" for rest
  proof (rule exI [of _ sl], rule exI [of _ quarantine], rule exI [of _ rest], intro conjI)
    show "getitems row listings_columns = Inr sl"
      by (rule resolved(1))
    show "stmts_of (trace w') = stmts_of (trace w) @ [?ins] @ quarantine @ [resolve_stmt self name] @ rest"
      using that(1) t1 t2 by simp
    show "list_all (\<lambda>q. \<not> is_resync q \<and> \<not> targets ''listings'' q) quarantine"
      by (rule nq)
    show "list_all (\<lambda>q. \<not> is_resync q) rest"
      by (rule that(2))
    show "\<not> truthy (resolved self name (srv w')) \<longrightarrow>
            rest = [] \<and> table_rows (srv w') ?bk = table_rows (srv w) ?bk"
      using that(3) b1 unfolding id by simp
  qed
  show ?thesis
  proof (cases "truthy ?id")
    case False
    with resolved(4) have "w' = ?w2"
      by (simp add: append_booking_skip)
    with False s2 show ?thesis
      by (intro fin [of "[]"]) simp_all
  next
    case True
    from eff obtain rest where "stmts_of (trace w') = stmts_of (trace ?w2) @ rest"
      and "list_all (\<lambda>q. \<not> is_resync q) rest"
      by (auto simp: quiet_def)
    with True show ?thesis
      by (intro fin [of rest]) simp_all
  qed
qed simp_all

lemma insert_branch_counts:
  assumes i: "idle self c w" and n: "getitem row ''name'' = Inr name"
    and d: "db_names name \<noteq> Some (TextV ''booking'')"
    and a: "add_booking_row self db_names bc c row w = (Inr (), w')"
  shows "\<exists>L QL B QB.
           table_rows (srv w') (table_key self ''listings'') = table_rows (srv w) (table_key self ''listings'') @ L \<and>
           table_rows (srv w') (table_key self ''listings_error_log'') =
             table_rows (srv w) (table_key self ''listings_error_log'') @ QL \<and>
           table_rows (srv w') (table_key self ''booking'') = table_rows (srv w) (table_key self ''booking'') @ B \<and>
           table_rows (srv w') (table_key self ''booking_error_log'') =
             table_rows (srv w) (table_key self ''booking_error_log'') @ QB \<and>
           length L + length QL = 1 \<and> length B + length QB \<le> 1"
  using i n d a
proof (cases rule: insert_branch_cases)
  case (resolved sl w1)
  let ?w2 = "emit (Execute c (resolve_stmt self name)) w1"
  let ?bk = "table_key self ''booking''" and ?lk = "table_key self ''listings''"
  let ?bek = "table_key self ''booking_error_log''" and ?lek = "table_key self ''listings_error_log''"
  have s2: "srv ?w2 = srv w1"
    by (simp add: emit_def)
  from populate_rows_effect [OF resolved(2)] obtain L QL where
    L: "table_rows (srv w1) ?lk = table_rows (srv w) ?lk @ L"
    and QL: "table_rows (srv w1) ?lek = table_rows (srv w) ?lek @ QL"
    and len: "length L + length QL = 1"
    by auto
  have b1: "table_rows (srv w1) ?bk = table_rows (srv w) ?bk" "table_rows (srv w1) ?bek = table_rows (srv w) ?bek"
    using populate_rows_frame [OF resolved(2), of ?bk] populate_rows_frame [OF resolved(2), of ?bek]
    by (simp_all add: distinct_keys)
  note eff = append_booking_effect [OF resolved(3,4), unfolded s2]
  from eff have l': "table_rows (srv w') ?lk = table_rows (srv w1) ?lk" "table_rows (srv w') ?lek = table_rows (srv w1) ?lek"
    using distinct_keys [of self] by blast+
  from eff obtain B QB where "table_rows (srv w') ?bk = table_rows (srv w1) ?bk @ B"
    "table_rows (srv w') ?bek = table_rows (srv w1) ?bek @ QB" "length B + length QB \<le> 1"
    by blast
  with L QL len b1 l' show ?thesis
    by auto
qed simp_all

lemma resolve_branch_counts:
  assumes i: "idle self c w" and n: "getitem row ''name'' = Inr name"
    and d: "db_names name = Some (TextV ''booking'')"
    and a: "add_booking_row self db_names bc c row w = (res, w')"
  shows "quiet self c w w' \<and>
         table_rows (srv w') (table_key self ''listings_error_log'') =
           table_rows (srv w) (table_key self ''listings_error_log'') \<and>
         (res = Inr () \<longrightarrow>
          (\<exists>B QB.
             table_rows (srv w') (table_key self ''booking'') = table_rows (srv w) (table_key self ''booking'') @ B \<and>
             table_rows (srv w') (table_key self ''booking_error_log'') =
               table_rows (srv w) (table_key self ''booking_error_log'') @ QB \<and>
             length B + length QB \<le> 1))"
proof -
  obtain r1 w1 where g: "get_listing_id self name c w = (r1, w1)"
    by (cases "get_listing_id self name c w")
  note g' = get_listing_id_effect [OF i g]
  from g'(1) i have i1: "idle self c w1" and s1: "srv w1 = srv w" and q1: "quiet self c w w1"
    by (simp_all add: idle_emit quiet_emit_resolve) (simp add: emit_def)
  show ?thesis
  proof (cases r1)
    case (Inl e)
    with a g n d have "w' = w1" "res = Inl e"
      by (simp_all add: add_booking_row_resolve)
    with s1 q1 show ?thesis
      by simp
  next
    case (Inr listing_id)
    with a g n d have ap: "append_booking self row listing_id bc c w1 = (res, w')"
      by (simp add: add_booking_row_resolve)
    note eff = append_booking_effect [OF i1 ap, unfolded s1]
    from eff q1 have "quiet self c w w'"
      by (blast intro: quiet_trans)
    moreover from eff have "table_rows (srv w') (table_key self ''listings_error_log'') =
           table_rows (srv w) (table_key self ''listings_error_log'')"
      using distinct_keys [of self] by blast
    ultimately show ?thesis
      using eff by blast
  qed
qed

lemma add_booking_row_no_name:
  "getitem row ''name'' = Inl e \<Longrightarrow> add_booking_row self db_names bc c row w = (Inl e, w)"
  by (simp add: add_booking_row_def)


lemma add_booking_row_quiet:
  assumes i: "idle self c w" and a: "add_booking_row self db_names bc c row w = (res, w')"
  shows "quiet self c w w'"
proof (cases "getitem row ''name''")
  case (Inl e)
  with a i show ?thesis
    by (simp add: add_booking_row_no_name quiet_refl)
next
  case (Inr name)
  show ?thesis
  proof (cases "db_names name = Some (TextV ''booking'')")
    case True
    from resolve_branch_counts [OF i Inr True a] show ?thesis
      by blast
  next
    case False
    from insert_branch_booking [OF i Inr False a] show ?thesis
      by blast
  qed
qed



text \<open>
  Claim C6, as the code has it. A record whose name the index maps to booking adds no
  listing. It adds at most one booking row, and that row carries the identifier of a
  stored listing of that name whose platform is booking. It adds exactly that row when
  the listings table is there, the identifier found is truthy, the record has its
  room name, time stamp and price, and the store accepts the booking row.
\<close>

theorem known_listing_gets_booking:
  assumes "idle self c w"
    and "getitem row ''name'' = Inr name"
    and "db_names name = Some (TextV ''booking'')"
    and "add_booking_row self db_names bc c row w = (res, w')"
  shows "table_rows (srv w') (table_key self ''listings'') = table_rows (srv w) (table_key self ''listings'') \<and>
         (table_rows (srv w') (table_key self ''booking'') = table_rows (srv w) (table_key self ''booking'') \<or>
          (\<exists>b l. res = Inr () \<and>
                 table_rows (srv w') (table_key self ''booking'') = table_rows (srv w) (table_key self ''booking'') @ [b] \<and>
                 l \<in> set (table_rows (srv w) (table_key self ''listings'')) \<and>
                 cell l ''name'' = name \<and> cell l ''platform'' = TextV ''booking'' \<and>
                 cell b ''listing_id'' = cell l ''listing_id'')) \<and>
         (\<forall>tb x y z rs.
            tables (srv w) (table_key self ''listings'') = Some tb \<longrightarrow>
            {''listing_id'', ''name'', ''platform''} \<subseteq> fst ` set (t_cols tb) \<longrightarrow>
            truthy (resolved self name (srv w)) \<longrightarrow>
            getitems row [''room_name'', ''timestamp'', ''price''] =
              Inr [(''room_name'', x), (''timestamp'', y), (''price'', z)] \<longrightarrow>
            fst (exec_insert (database_name self) (schema_name self) ''booking''
                   [''room_name'', ''timestamp'', ''price'', ''listing_id'']
                   [x, y, z, resolved self name (srv w)] (srv w)) = Inr rs \<longrightarrow>
            res = Inr () \<and>
            (\<exists>b. table_rows (srv w') (table_key self ''booking'') =
                   table_rows (srv w) (table_key self ''booking'') @ [b] \<and>
                 cell b ''listing_id'' = resolved self name (srv w) \<and>
                 holds [''room_name'', ''timestamp'', ''price''] [x, y, z] b))"
  using assms by (rule resolve_branch_effect)

theorem known_listing_gets_booking_witness:
  "idle accommodation 0 (connected known_store) \<and>
   getitem (scraped ''Hotel Post'' ''Double room'' ''2024-06-01 10:00:00'' (IntV 100)) ''name'' = Inr (TextV ''Hotel Post'') \<and>
   fst (add_booking_row accommodation [TextV ''Hotel Post'' \<mapsto> TextV ''booking''] booking_columns 0
          (scraped ''Hotel Post'' ''Double room'' ''2024-06-01 10:00:00'' (IntV 100))
          (connected known_store)) = Inr () \<and>
   table_rows
     (srv (snd (add_booking_row accommodation [TextV ''Hotel Post'' \<mapsto> TextV ''booking''] booking_columns 0
                  (scraped ''Hotel Post'' ''Double room'' ''2024-06-01 10:00:00'' (IntV 100))
                  (connected known_store))))
     (table_key accommodation ''listings'') =
   table_rows (srv (connected known_store))
     (table_key accommodation ''listings'') \<and>
   map (\<lambda>r. cell r ''listing_id'')
     (rows_of (snd (add_booking_row accommodation [TextV ''Hotel Post'' \<mapsto> TextV ''booking''] booking_columns 0
                      (scraped ''Hotel Post'' ''Double room'' ''2024-06-01 10:00:00'' (IntV 100))
                      (connected known_store))) ''booking'') =
     [IntV 1]"
proof -
  let ?w = "connected known_store"
  let ?row = "scraped ''Hotel Post'' ''Double room'' ''2024-06-01 10:00:00'' (IntV 100)"
  let ?run = "add_booking_row accommodation [TextV ''Hotel Post'' \<mapsto> TextV ''booking''] booking_columns 0 ?row ?w"
  have i: "idle accommodation 0 ?w"
    by (simp add: idle_def connected_def connect_eq dbname_of_def known_store_def store_with_def accommodation_def)
  have n: "getitem ?row ''name'' = Inr (TextV ''Hotel Post'')"
    by code_simp
  have d: "[TextV ''Hotel Post'' \<mapsto> TextV ''booking''] (TextV ''Hotel Post'') = Some (TextV ''booking'')"
    by simp
  have r: "fst ?run = Inr ()"
    by code_simp
  have b: "map (\<lambda>r. cell r ''listing_id'') (rows_of (snd ?run) ''booking'') = [IntV 1]"
    by code_simp
  have "?run = (fst ?run, snd ?run)"
    by simp
  from known_listing_gets_booking [OF i n d this] i n r b show ?thesis
    by blast
qed

text \<open>
  Two records whose natural key (``Hotel Post'', booking) is in the store. The price of
  the first is no number: the store refuses its booking row, which is quarantined, and no
  booking is appended. For the second, ``Hotel Post'' is also stored for airbnb in a later
  row, and the index keeps one platform per name, the later one: the record takes the
  insert branch and the listings table gains a second row for (``Hotel Post'', booking).
\<close>

theorem known_key_counterexample:
  "keys_of known_store = [(IntV 1, TextV ''Hotel Post'', TextV ''booking'')] \<and>
   fst (add_booking_data accommodation on_request_batch known_store) = Inr () \<and>
   rows_of (snd (add_booking_data accommodation on_request_batch known_store)) ''booking'' = [] \<and>
   rows_of (snd (add_booking_data accommodation on_request_batch known_store)) ''booking_error_log'' =
     [[(''listing_id'', IntV 1), (''room_name'', TextV ''Double room''), (''timestamp'', TextV ''2024-06-01 10:00:00''),
       (''price'', TextV ''on request''), (''error_message'', TextV (str_error (DatatypeMismatch ''price'')))]] \<and>
   keys_of shadowed_store =
     [(IntV 1, TextV ''Hotel Post'', TextV ''booking''), (IntV 2, TextV ''Hotel Post'', TextV ''airbnb'')] \<and>
   fst (add_booking_data accommodation hotel_post_batch shadowed_store) = Inr () \<and>
   keys_of (snd (add_booking_data accommodation hotel_post_batch shadowed_store)) =
     [(IntV 1, TextV ''Hotel Post'', TextV ''booking''), (IntV 2, TextV ''Hotel Post'', TextV ''airbnb''),
      (IntV 3, TextV ''Hotel Post'', TextV ''booking'')]"
  by code_simp

text \<open>
  Claim C3, as the code has it. A record that takes the insert branch first sends the
  INSERT of its one listing row, then, if that was refused, the statements of the
  quarantine, then the lookup of the identifier in the store, and then what the booking
  needs. No statement of the synchronizer is sent for the record. When the lookup
  finds nothing truthy, nothing follows it and the booking table is as before.
\<close>

theorem new_listing_path:
  assumes "idle self c w"
    and "getitem row ''name'' = Inr name"
    and "db_names name \<noteq> Some (TextV ''booking'')"
    and "add_booking_row self db_names bc c row w = (Inr (), w')"
  shows "\<exists>sl quarantine rest.
           getitems row listings_columns = Inr sl \<and>
           stmts_of (trace w') =
             stmts_of (trace w) @
             [INSERT_INTO (schema_name self) ''listings'' listings_columns (values_tuple (map snd sl))] @
             quarantine @ [resolve_stmt self name] @ rest \<and>
           list_all (\<lambda>q. \<not> is_resync q \<and> \<not> targets ''listings'' q) quarantine \<and>
           list_all (\<lambda>q. \<not> is_resync q) rest \<and>
           (\<not> truthy (resolved self name (srv w')) \<longrightarrow>
              rest = [] \<and>
              table_rows (srv w') (table_key self ''booking'') = table_rows (srv w) (table_key self ''booking''))"
  using assms by (rule insert_branch_trace)

theorem new_listing_path_witness:
  "idle accommodation 0 (connected (store_with [] (1, False))) \<and>
   getitem (scraped ''Seaside Loft'' ''Double room'' ''2024-06-01 10:00:00'' (IntV 100)) ''name'' = Inr (TextV ''Seaside Loft'') \<and>
   fst (add_booking_row accommodation Map.empty booking_columns 0
          (scraped ''Seaside Loft'' ''Double room'' ''2024-06-01 10:00:00'' (IntV 100))
          (connected (store_with [] (1, False)))) = Inr () \<and>
   (\<exists>sl quarantine rest.
      getitems (scraped ''Seaside Loft'' ''Double room'' ''2024-06-01 10:00:00'' (IntV 100)) listings_columns = Inr sl \<and>
      stmts_of (trace (snd (add_booking_row accommodation Map.empty booking_columns 0
                              (scraped ''Seaside Loft'' ''Double room'' ''2024-06-01 10:00:00'' (IntV 100))
                              (connected (store_with [] (1, False)))))) =
        stmts_of (trace (connected (store_with [] (1, False)))) @
        [INSERT_INTO (schema_name accommodation) ''listings'' listings_columns (values_tuple (map snd sl))] @
        quarantine @ [resolve_stmt accommodation (TextV ''Seaside Loft'')] @ rest \<and>
      list_all (\<lambda>q. \<not> is_resync q \<and> \<not> targets ''listings'' q) quarantine \<and>
      list_all (\<lambda>q. \<not> is_resync q) rest)"
proof -
  let ?w = "connected (store_with [] (1, False))"
  let ?row = "scraped ''Seaside Loft'' ''Double room'' ''2024-06-01 10:00:00'' (IntV 100)"
  let ?run = "add_booking_row accommodation Map.empty booking_columns 0 ?row ?w"
  have i: "idle accommodation 0 ?w"
    by (simp add: idle_def connected_def connect_eq dbname_of_def store_with_def accommodation_def)
  have n: "getitem ?row ''name'' = Inr (TextV ''Seaside Loft'')"
    by code_simp
  have d: "(Map.empty :: val \<Rightarrow> val option) (TextV ''Seaside Loft'') \<noteq> Some (TextV ''booking'')"
    by simp
  have r: "fst ?run = Inr ()"
    by code_simp
  then have "?run = (Inr (), snd ?run)"
    by (simp add: prod_eq_iff)
  from new_listing_path [OF i n d this] i n r show ?thesis
    by blast
qed

text \<open>
  The scenario of the specification again: three records take the insert branch, and
  the only two statements of the synchronizer in the whole run are sent before the
  first listing is inserted; none follows an insert.
\<close>

theorem no_resync_after_insert_counterexample:
  "fst (add_booking_data accommodation seaside_batch (store_with [] (1, False))) = Inr () \<and>
   length (filter (targets ''listings'')
     (stmts_of (trace (snd (add_booking_data accommodation seaside_batch (store_with [] (1, False))))))) = 3 \<and>
   filter is_resync
     (stmts_of (trace (snd (add_booking_data accommodation seaside_batch (store_with [] (1, False)))))) =
     [SELECT_MAX ''accommodations'' ''listings'' ''listing_id'',
      SETVAL ''accommodations'' ''listings'' ''listing_id'' 1 False] \<and>
   filter is_resync
     (dropWhile (\<lambda>q. \<not> targets ''listings'' q)
        (stmts_of (trace (snd (add_booking_data accommodation seaside_batch (store_with [] (1, False))))))) = []"
  by code_simp

section \<open>A whole run\<close>

lemma add_booking_row_counts:
  assumes i: "idle self c w" and a: "add_booking_row self db_names bc c row w = (Inr (), w')"
  shows "\<exists>L QL B QB.
           table_rows (srv w') (table_key self ''listings'') = table_rows (srv w) (table_key self ''listings'') @ L \<and>
           table_rows (srv w') (table_key self ''listings_error_log'') =
             table_rows (srv w) (table_key self ''listings_error_log'') @ QL \<and>
           table_rows (srv w') (table_key self ''booking'') = table_rows (srv w) (table_key self ''booking'') @ B \<and>
           table_rows (srv w') (table_key self ''booking_error_log'') =
             table_rows (srv w) (table_key self ''booking_error_log'') @ QB \<and>
           length L + length QL \<le> 1 \<and> length B + length QB \<le> 1"
proof (cases "getitem row ''name''")
  case (Inl e)
  with a show ?thesis
    by (simp add: add_booking_row_no_name)
next
  case (Inr name)
  show ?thesis
  proof (cases "db_names name = Some (TextV ''booking'')")
    case True
    from resolve_branch_effect [OF i Inr True a]
    have "table_rows (srv w') (table_key self ''listings'') = table_rows (srv w) (table_key self ''listings'') @ []"
      by simp
    moreover from resolve_branch_counts [OF i Inr True a]
    have "table_rows (srv w') (table_key self ''listings_error_log'') =
            table_rows (srv w) (table_key self ''listings_error_log'') @ []"
      and "\<exists>B QB.
             table_rows (srv w') (table_key self ''booking'') = table_rows (srv w) (table_key self ''booking'') @ B \<and>
             table_rows (srv w') (table_key self ''booking_error_log'') =
               table_rows (srv w) (table_key self ''booking_error_log'') @ QB \<and>
             length B + length QB \<le> 1"
      by simp_all
    ultimately show ?thesis
      by (metis add_0 list.size(3) zero_le_one)
  next
    case False
    from insert_branch_counts [OF i Inr False a] show ?thesis
      by (metis order_refl)
  qed
qed

lemma add_booking_rows_counts:
  assumes "idle self c w" and "add_booking_rows self db_names bc c rows w = (Inr (), w')"
  shows "idle self c w' \<and>
         (\<exists>L QL B QB.
           table_rows (srv w') (table_key self ''listings'') = table_rows (srv w) (table_key self ''listings'') @ L \<and>
           table_rows (srv w') (table_key self ''listings_error_log'') =
             table_rows (srv w) (table_key self ''listings_error_log'') @ QL \<and>
           table_rows (srv w') (table_key self ''booking'') = table_rows (srv w) (table_key self ''booking'') @ B \<and>
           table_rows (srv w') (table_key self ''booking_error_log'') =
             table_rows (srv w) (table_key self ''booking_error_log'') @ QB \<and>
           length L + length QL \<le> length rows \<and> length B + length QB \<le> length rows)"
  using assms
proof (induction rows arbitrary: w)
  case Nil
  then show ?case by simp
next
  case (Cons row rest)
  from Cons.prems(2) obtain w1 where
    1: "add_booking_row self db_names bc c row w = (Inr (), w1)"
    and 2: "add_booking_rows self db_names bc c rest w1 = (Inr (), w')"
    by (auto split: prod.splits sum.splits)
  from add_booking_row_quiet [OF Cons.prems(1) 1] have i1: "idle self c w1"
    by (simp add: quiet_def)
  from add_booking_row_counts [OF Cons.prems(1) 1] obtain L QL B QB where
    s1: "table_rows (srv w1) (table_key self ''listings'') = table_rows (srv w) (table_key self ''listings'') @ L"
      "table_rows (srv w1) (table_key self ''listings_error_log'') =
         table_rows (srv w) (table_key self ''listings_error_log'') @ QL"
      "table_rows (srv w1) (table_key self ''booking'') = table_rows (srv w) (table_key self ''booking'') @ B"
      "table_rows (srv w1) (table_key self ''booking_error_log'') =
         table_rows (srv w) (table_key self ''booking_error_log'') @ QB"
    and n1: "length L + length QL \<le> 1" "length B + length QB \<le> 1"
    by blast
  from Cons.IH [OF i1 2] obtain L' QL' B' QB' where
    i': "idle self c w'"
    and s2: "table_rows (srv w') (table_key self ''listings'') = table_rows (srv w1) (table_key self ''listings'') @ L'"
      "table_rows (srv w') (table_key self ''listings_error_log'') =
         table_rows (srv w1) (table_key self ''listings_error_log'') @ QL'"
      "table_rows (srv w') (table_key self ''booking'') = table_rows (srv w1) (table_key self ''booking'') @ B'"
      "table_rows (srv w') (table_key self ''booking_error_log'') =
         table_rows (srv w1) (table_key self ''booking_error_log'') @ QB'"
    and n2: "length L' + length QL' \<le> length rest" "length B' + length QB' \<le> length rest"
    by blast
  show ?case
  proof (intro conjI, rule i', rule exI [of _ "L @ L'"], rule exI [of _ "QL @ QL'"],
      rule exI [of _ "B @ B'"], rule exI [of _ "QB @ QB'"], intro conjI)
    show "table_rows (srv w') (table_key self ''listings'') =
            table_rows (srv w) (table_key self ''listings'') @ L @ L'"
      using s1 s2 by simp
    show "table_rows (srv w') (table_key self ''listings_error_log'') =
            table_rows (srv w) (table_key self ''listings_error_log'') @ QL @ QL'"
      using s1 s2 by simp
    show "table_rows (srv w') (table_key self ''booking'') =
            table_rows (srv w) (table_key self ''booking'') @ B @ B'"
      using s1 s2 by simp
    show "table_rows (srv w') (table_key self ''booking_error_log'') =
            table_rows (srv w) (table_key self ''booking_error_log'') @ QB @ QB'"
      using s1 s2 by simp
    show "length (L @ L') + length (QL @ QL') \<le> length (row # rest)"
      using n1 n2 by simp
    show "length (B @ B') + length (QB @ QB') \<le> length (row # rest)"
      using n1 n2 by simp
  qed
qed

lemma load_existing_values_srv:
  assumes "load_existing_values self t w = (Inr d, w1)"
  shows "srv w1 = srv w"
  using assms
  by (auto simp: load_existing_values_def connect_eq cursor_execute_def exec_stmt_def conn_close_def emit_def Let_def
      split: if_splits prod.splits sum.splits option.splits)

lemma connect_idle:
  assumes "connect self (Some (database_name self)) w = (Inr c, w1)"
  shows "idle self c w1" and "srv w1 = srv w"
  using assms
  by (auto simp: connect_eq dbname_of_def idle_def split: if_splits)

lemma get_max_listing_id_idle:
  assumes "idle self c w" and "get_max_listing_id self w = (Inr m, w1)"
  shows "idle self c w1" and "srv w1 = srv w"
  using assms
  by (auto simp: get_max_listing_id_def connect_eq cursor_execute_def exec_stmt_def conn_close_def emit_def Let_def
        idle_def fetchone_def
      split: if_splits prod.splits sum.splits option.splits list.splits)

lemma set_listing_id_sequence_idle:
  assumes "idle self c w" and "set_listing_id_sequence self m w = (Inr (), w1)"
  shows "idle self c w1" and "table_rows (srv w1) k = table_rows (srv w) k"
proof -
  from assms(2) obtain n where m: "m = IntV n"
    by (cases m) (simp_all add: set_listing_id_sequence_def)
  let ?q = "SETVAL (schema_name self) ''listings'' ''listing_id'' (n + 1) False"
  from assms(2) have e: "execute_query self ?q (Some (database_name self)) True w = (Inr (), w1)"
    by (simp add: set_listing_id_sequence_def m)
  then have db: "database_name self \<in> set (databases (srv w))"
    by (auto simp: execute_query_commit dbname_of_def split: if_splits)
  with e have w1: "srv w1 = snd (exec_stmt (database_name self) ?q (srv w))"
    "conns w1 = (conns w)(next_conn w := None)" "next_conn w1 = Suc (next_conn w)"
    by (auto simp: execute_query_commit dbname_of_def split: prod.splits sum.splits)
  from assms(1) w1(2,3) show "idle self c w1"
    by (auto simp: idle_def)
  from w1(1) show "table_rows (srv w1) k = table_rows (srv w) k"
    by (auto simp: exec_stmt_def table_rows_def split: option.splits)
qed

lemma conn_close_idle:
  "idle self c w \<Longrightarrow> srv (conn_close c w) = srv w"
  by (simp add: idle_def conn_close_def emit_def)

text \<open>
  Claim C8, as the code has it. \<open>add_booking_data\<close> takes the frame and nothing else,
  and a run that ends normally returns \<^verbatim>\<open>None\<close>. What it inserted, appended and
  quarantined is to be read off the store: the four tables have only grown, by at
  most one listing or quarantined listing and at most one booking or quarantined booking
  for each record.
\<close>

theorem add_booking_data_returns_no_summary:
  assumes "add_booking_data self df w = (Inr u, w')"
  shows "u = () \<and>
         (\<exists>L QL B QB.
           table_rows (srv w') (table_key self ''listings'') = table_rows (srv w) (table_key self ''listings'') @ L \<and>
           table_rows (srv w') (table_key self ''listings_error_log'') =
             table_rows (srv w) (table_key self ''listings_error_log'') @ QL \<and>
           table_rows (srv w') (table_key self ''booking'') = table_rows (srv w) (table_key self ''booking'') @ B \<and>
           table_rows (srv w') (table_key self ''booking_error_log'') =
             table_rows (srv w) (table_key self ''booking_error_log'') @ QB \<and>
           length L + length QL \<le> length (df_rows df) \<and> length B + length QB \<le> length (df_rows df))"
proof -
  from assms obtain db_names w1 c w2 m w3 w4 w5 where
    1: "load_existing_values self ''listings'' w = (Inr db_names, w1)"
    and 2: "connect self (Some (database_name self)) w1 = (Inr c, w2)"
    and 3: "get_max_listing_id self w2 = (Inr m, w3)"
    and 4: "set_listing_id_sequence self m w3 = (Inr (), w4)"
    and 5: "add_booking_rows self db_names [''listing_id'', ''room_name'', ''timestamp'', ''price''] c (iterrows df) w4 =
              (Inr (), w5)"
    and 6: "w' = conn_close c w5"
    by (auto simp: add_booking_data_def Let_def split: prod.splits sum.splits)
  note s1 = load_existing_values_srv [OF 1]
  note c2 = connect_idle [OF 2]
  note g3 = get_max_listing_id_idle [OF c2(1) 3]
  note s4 = set_listing_id_sequence_idle [OF g3(1) 4]
  have before: "table_rows (srv w4) k = table_rows (srv w) k" for k
    using s4(2) [of k] g3(2) c2(2) s1 by simp
  from add_booking_rows_counts [OF s4(1) 5] have i5: "idle self c w5"
    and cnt: "\<exists>L QL B QB.
           table_rows (srv w5) (table_key self ''listings'') = table_rows (srv w4) (table_key self ''listings'') @ L \<and>
           table_rows (srv w5) (table_key self ''listings_error_log'') =
             table_rows (srv w4) (table_key self ''listings_error_log'') @ QL \<and>
           table_rows (srv w5) (table_key self ''booking'') = table_rows (srv w4) (table_key self ''booking'') @ B \<and>
           table_rows (srv w5) (table_key self ''booking_error_log'') =
             table_rows (srv w4) (table_key self ''booking_error_log'') @ QB \<and>
           length L + length QL \<le> length (iterrows df) \<and> length B + length QB \<le> length (iterrows df)"
    by blast+
  from conn_close_idle [OF i5] 6 have "srv w' = srv w5"
    by simp
  with cnt show ?thesis
    by (simp add: before iterrows_def)
qed

theorem add_booking_data_returns_no_summary_witness:
  "fst (add_booking_data accommodation hotel_post_batch (store_with [] (1, False))) = Inr () \<and>
   (\<exists>L QL B QB.
      table_rows (srv (snd (add_booking_data accommodation hotel_post_batch (store_with [] (1, False)))))
        (table_key accommodation ''listings'') =
        table_rows (srv (store_with [] (1, False))) (table_key accommodation ''listings'') @ L \<and>
      table_rows (srv (snd (add_booking_data accommodation hotel_post_batch (store_with [] (1, False)))))
        (table_key accommodation ''listings_error_log'') =
        table_rows (srv (store_with [] (1, False))) (table_key accommodation ''listings_error_log'') @ QL \<and>
      table_rows (srv (snd (add_booking_data accommodation hotel_post_batch (store_with [] (1, False)))))
        (table_key accommodation ''booking'') =
        table_rows (srv (store_with [] (1, False))) (table_key accommodation ''booking'') @ B \<and>
      table_rows (srv (snd (add_booking_data accommodation hotel_post_batch (store_with [] (1, False)))))
        (table_key accommodation ''booking_error_log'') =
        table_rows (srv (store_with [] (1, False))) (table_key accommodation ''booking_error_log'') @ QB \<and>
      length L + length QL \<le> length (df_rows hotel_post_batch) \<and>
      length B + length QB \<le> length (df_rows hotel_post_batch))"
proof -
  let ?run = "add_booking_data accommodation hotel_post_batch (store_with [] (1, False))"
  have r: "fst ?run = Inr ()"
    by code_simp
  then have "?run = (Inr (), snd ?run)"
    by (simp add: prod_eq_iff)
  from add_booking_data_returns_no_summary [OF this] r show ?thesis
    by blast
qed

text \<open>
  Two runs on the same empty store, one with one new record and one with no record:
  the first inserts a listing and appends a booking, the second does nothing, and both
  return the same value.
\<close>

theorem same_return_counterexample:
  "fst (add_booking_data accommodation hotel_post_batch (store_with [] (1, False))) =
     fst (add_booking_data accommodation empty_batch (store_with [] (1, False))) \<and>
   length (rows_of (snd (add_booking_data accommodation hotel_post_batch (store_with [] (1, False)))) ''listings'') = 1 \<and>
   length (rows_of (snd (add_booking_data accommodation hotel_post_batch (store_with [] (1, False)))) ''booking'') = 1 \<and>
   length (rows_of (snd (add_booking_data accommodation empty_batch (store_with [] (1, False)))) ''listings'') = 0 \<and>
   length (rows_of (snd (add_booking_data accommodation empty_batch (store_with [] (1, False)))) ''booking'') = 0"
  by code_simp

end
